theory Spec2Isabelle
  imports Complex_Main
begin

section \<open>Data model\<close>

text \<open>
  The program is \<^verbatim>\<open>src/cv2_show.py\<close>: it arranges a batch of images into one padded
  grid image and shows it with OpenCV.

  Modelling conventions.
  \<^item> A numpy array is a record of its dtype, its shape and its samples in row-major
    (C) order. A sample is a real number: NaN, the infinities and the rounding of
    sample arithmetic (which depends on the dtype) are outside the model, so every
    statement about sample values is a statement about exact arithmetic.
  \<^item> A Python \<^verbatim>\<open>float\<close> is a real number that is a float64: every scalar operation on
    floats is the exact operation followed by \<open>float64\<close>, the rounding to the nearest
    float64, a tie going to the even significand. These are the scale factors, whose
    rounded product with an image dimension decides the size of a cell.
  \<^item> A Python \<^verbatim>\<open>int\<close> is an \<open>int\<close>; a dimension of a shape is a \<open>nat\<close>.
  \<^item> An exception is a value of type \<open>error\<close>; a function that can raise returns
    \<open>error + 'a\<close> with \<open>Inl\<close> for the exception.
  \<^item> The OpenCV calls (\<^verbatim>\<open>cv2.resize\<close>, \<^verbatim>\<open>cv2.imshow\<close>, \<^verbatim>\<open>cv2.waitKey\<close>) are not code
    of the repository. They are parameters of the model, collected in the record
    \<open>cv2\<close>.
\<close>

datatype dtype = Float32 | Float64 | Int32 | Int64 | UInt8 | Bool8

datatype error =
    AssertionError string
  | ValueError
  | TypeError
  | IndexError
  | ZeroDivisionError
  | CvError
  | NonFinite

text \<open>
  \<open>CvError\<close> is never produced by the model itself: only an instance of the OpenCV
  parameters can return it. \<open>NonFinite\<close> is not a Python exception: it marks the one
  place where the program would divide samples by a zero denominator, numpy would go on
  with \<^verbatim>\<open>inf\<close> and \<^verbatim>\<open>nan\<close> samples, and the run leaves the real-number model.
\<close>

record ndarray =
  dtype :: dtype
  shape :: "nat list"
  data :: "real list"

definition wf :: "ndarray \<Rightarrow> bool" where
  "wf a = (length (data a) = prod_list (shape a))"

definition ndim :: "ndarray \<Rightarrow> nat" where
  "ndim a = length (shape a)"

definition at2 :: "ndarray \<Rightarrow> nat \<Rightarrow> nat \<Rightarrow> real" where
  \<comment> \<open>\<^verbatim>\<open>a[i, j]\<close> of an array whose second axis has length \<open>shape a ! 1\<close>\<close>
  "at2 a i j = data a ! (i * (shape a ! 1) + j)"

definition at3 :: "ndarray \<Rightarrow> nat \<Rightarrow> nat \<Rightarrow> nat \<Rightarrow> real" where
  \<comment> \<open>\<^verbatim>\<open>a[i, j, c]\<close> of a 3-dimensional array\<close>
  "at3 a i j c = data a ! ((i * (shape a ! 1) + j) * (shape a ! 2) + c)"

definition is_float :: "dtype \<Rightarrow> bool" where
  \<comment> \<open>\<^verbatim>\<open>dtype in [np.float32, np.float64]\<close>\<close>
  "is_float d = (d = Float32 \<or> d = Float64)"

definition DESIRED_HEIGHT :: int where
  "DESIRED_HEIGHT = 500"

definition DEFAULT_BACKGROUND_COLOR :: real where
  "DEFAULT_BACKGROUND_COLOR = 0.3 * 255"

definition eps :: real where
  \<comment> \<open>\<^verbatim>\<open>eps = 1e-15\<close>\<close>
  "eps = 1 / 10 ^ 15"

section \<open>best\_grid\<close>

text \<open>
  \<^verbatim>\<open>
  def best_grid(N):
      rows = np.floor(np.sqrt(N))
      cols = np.ceil(N / rows)
      return int(rows), int(cols)
  \<close>
  For \<open>N < 0\<close> the square root is \<^verbatim>\<open>nan\<close>, for \<open>N = 0\<close> the quotient \<^verbatim>\<open>0 / 0.0\<close> is
  \<^verbatim>\<open>nan\<close>, and \<^verbatim>\<open>int(nan)\<close> raises \<^verbatim>\<open>ValueError\<close>.
\<close>

definition best_grid :: "int \<Rightarrow> error + (int \<times> int)" where
  "best_grid N =
     (if N \<le> 0 then Inl ValueError
      else
        let rows = \<lfloor>sqrt (real_of_int N)\<rfloor>;
            cols = \<lceil>real_of_int N / real_of_int rows\<rceil>
        in Inr (rows, cols))"

section \<open>numpy and Python primitives\<close>

definition and_then :: "error + 'a \<Rightarrow> ('a \<Rightarrow> error + 'b) \<Rightarrow> error + 'b" where
  \<comment> \<open>sequencing of two statements, the first of which may raise\<close>
  "and_then m f = (case m of Inl e \<Rightarrow> Inl e | Inr x \<Rightarrow> f x)"

definition np_max :: "ndarray \<Rightarrow> error + real" where
  \<comment> \<open>\<^verbatim>\<open>np.max(a)\<close> over all samples; a zero-size array raises \<^verbatim>\<open>ValueError\<close>\<close>
  "np_max a = (case data a of [] \<Rightarrow> Inl ValueError | x # xs \<Rightarrow> Inr (foldl max x xs))"

definition np_abs :: "ndarray \<Rightarrow> ndarray" where
  "np_abs a = a\<lparr>data := map abs (data a)\<rparr>"

definition true_div_dtype :: "dtype \<Rightarrow> dtype" where
  \<comment> \<open>true division keeps a floating dtype and turns any other into \<^verbatim>\<open>float64\<close>\<close>
  "true_div_dtype d = (if is_float d then d else Float64)"

definition arr_div :: "ndarray \<Rightarrow> real \<Rightarrow> ndarray" where
  \<comment> \<open>\<^verbatim>\<open>a / s\<close> for a scalar \<open>s \<noteq> 0\<close>\<close>
  "arr_div a s = a\<lparr>dtype := true_div_dtype (dtype a), data := map (\<lambda>v. v / s) (data a)\<rparr>"

definition arr_mul :: "ndarray \<Rightarrow> real \<Rightarrow> ndarray" where
  \<comment> \<open>\<^verbatim>\<open>a * s\<close> for a scalar \<open>s\<close>\<close>
  "arr_mul a s = a\<lparr>data := map (\<lambda>v. v * s) (data a)\<rparr>"

definition normalize_by :: "ndarray \<Rightarrow> real \<Rightarrow> error + ndarray" where
  \<comment> \<open>\<^verbatim>\<open>image / (m + eps) * 255\<close>, the expression both normalizations share\<close>
  "normalize_by img m =
     (if m + eps = 0 then Inl NonFinite
      else Inr (arr_mul (arr_div img (m + eps)) 255))"

definition has_negative :: "ndarray \<Rightarrow> bool" where
  \<comment> \<open>\<^verbatim>\<open>len(image[image < 0]) > 0\<close>\<close>
  "has_negative img = (0 < length (filter (\<lambda>v. v < 0) (data img)))"

definition py_round :: "real \<Rightarrow> int" where
  \<comment> \<open>Python 3 \<^verbatim>\<open>round(x)\<close> of a float: to the nearest integer, a tie to the even one\<close>
  "py_round x =
     (let f = \<lfloor>x\<rfloor>; d = x - real_of_int f
      in if d < 1 / 2 then f
         else if 1 / 2 < d then f + 1
         else if even f then f else f + 1)"

definition float64 :: "real \<Rightarrow> real" where
  \<comment> \<open>the float64 nearest to \<open>x\<close>: 53 significant bits, a tie to the even significand;
      the exponent range is not modelled (no overflow, no subnormal numbers)\<close>
  "float64 x =
     (if x = 0 then 0
      else
        let e = \<lfloor>log 2 \<bar>x\<bar>\<rfloor>;
            u = 2 powi (e - 52)
        in real_of_int (py_round (x / u)) * u)"

definition squeeze_last :: "ndarray \<Rightarrow> error + ndarray" where
  \<comment> \<open>\<^verbatim>\<open>a.squeeze(axis=-1)\<close>: the last axis must have length 1\<close>
  "squeeze_last a =
     (if shape a = [] then Inl ValueError
      else if last (shape a) \<noteq> 1 then Inl ValueError
      else Inr (a\<lparr>shape := butlast (shape a)\<rparr>))"

definition np_ones_times :: "int \<Rightarrow> int \<Rightarrow> real \<Rightarrow> error + ndarray" where
  \<comment> \<open>\<^verbatim>\<open>np.ones([h, w]) * c\<close>; a negative dimension raises \<^verbatim>\<open>ValueError\<close>\<close>
  "np_ones_times h w c =
     (if h < 0 \<or> w < 0 then Inl ValueError
      else Inr \<lparr>dtype = Float64, shape = [nat h, nat w],
                data = replicate (nat h * nat w) c\<rparr>)"

definition image_at :: "ndarray \<Rightarrow> nat \<Rightarrow> ndarray" where
  \<comment> \<open>\<^verbatim>\<open>images[n, :, :]\<close> of a 3-dimensional array, for \<open>n\<close> below its first dimension\<close>
  "image_at images n =
     (let hw = prod_list (tl (shape images))
      in \<lparr>dtype = dtype images, shape = tl (shape images),
          data = take hw (drop (n * hw) (data images))\<rparr>)"

definition clip_index :: "int \<Rightarrow> nat \<Rightarrow> nat" where
  \<comment> \<open>a bound of a Python slice on an axis of length \<open>L\<close>: negative counts from the end\<close>
  "clip_index i L = (if i < 0 then nat (max (i + int L) 0) else min (nat i) L)"

definition py_slice :: "int \<Rightarrow> int \<Rightarrow> nat \<Rightarrow> nat \<times> nat" where
  \<comment> \<open>the index range \<open>[lo, hi)\<close> that \<^verbatim>\<open>slice(start, stop)\<close> selects\<close>
  "py_slice start stop L =
     (let lo = clip_index start L; hi = clip_index stop L in (lo, max lo hi))"

fun strip_ones :: "nat list \<Rightarrow> nat list" where
  \<comment> \<open>assignment drops leading axes of length 1 beyond the target's two axes\<close>
  "strip_ones [] = []"
| "strip_ones (d # ds) = (if 2 \<le> length ds \<and> d = 1 then strip_ones ds else d # ds)"

definition broadcast2 :: "ndarray \<Rightarrow> nat \<Rightarrow> nat \<Rightarrow> (nat \<Rightarrow> nat \<Rightarrow> real) option" where
  \<comment> \<open>the value broadcast to a target of shape \<open>[th, tw]\<close>, as a function of the position,
      or \<open>None\<close> when the shapes do not broadcast\<close>
  "broadcast2 v th tw =
     (case strip_ones (shape v) of
        [] \<Rightarrow> Some (\<lambda>i j. data v ! 0)
      | [w] \<Rightarrow>
          if w = tw \<or> w = 1 then Some (\<lambda>i j. data v ! (if w = 1 then 0 else j)) else None
      | [h, w] \<Rightarrow>
          if (h = th \<or> h = 1) \<and> (w = tw \<or> w = 1)
          then Some (\<lambda>i j. data v ! ((if h = 1 then 0 else i) * w + (if w = 1 then 0 else j)))
          else None
      | _ \<Rightarrow> None)"

definition setitem2 :: "ndarray \<Rightarrow> int \<times> int \<Rightarrow> int \<times> int \<Rightarrow> ndarray \<Rightarrow> error + ndarray" where
  \<comment> \<open>\<^verbatim>\<open>grid[slice(a, b), slice(c, d)] = v\<close> on a 2-dimensional array\<close>
  "setitem2 grid slice_h slice_w v =
     (let H = shape grid ! 0; W = shape grid ! 1;
          (r0, r1) = py_slice (fst slice_h) (snd slice_h) H;
          (c0, c1) = py_slice (fst slice_w) (snd slice_w) W
      in case broadcast2 v (r1 - r0) (c1 - c0) of
           None \<Rightarrow> Inl ValueError
         | Some f \<Rightarrow>
             Inr (grid\<lparr>data :=
               map (\<lambda>k. let i = k div W; j = k mod W
                        in if r0 \<le> i \<and> i < r1 \<and> c0 \<le> j \<and> j < c1
                           then f (i - r0) (j - c0) else data grid ! k)
                   [0..<H * W]\<rparr>))"

fun for_each :: "('s \<Rightarrow> 'a \<Rightarrow> error + 's) \<Rightarrow> 'a list \<Rightarrow> 's \<Rightarrow> error + 's" where
  \<comment> \<open>a \<^verbatim>\<open>for\<close> loop whose body updates the state \<open>s\<close> and may raise\<close>
  "for_each body [] s = Inr s"
| "for_each body (x # xs) s =
     (case body s x of Inl e \<Rightarrow> Inl e | Inr s' \<Rightarrow> for_each body xs s')"

section \<open>OpenCV\<close>

text \<open>
  \<open>resize cv fx fy src\<close> is \<^verbatim>\<open>cv2.resize(src, None, fx=fx, fy=fy,
  interpolation=cv2.INTER_NEAREST)\<close>, and \<open>waitKey cv ms\<close> is the key code that
  \<^verbatim>\<open>cv2.waitKey(ms)\<close> reports (\<open>-1\<close> when no key was pressed in time).
  \<^verbatim>\<open>cv2.imshow\<close> is modelled by its argument: the outcome of \<open>show_image\<close> records the
  buffer handed to it.
\<close>

record cv2 =
  resize :: "real \<Rightarrow> real \<Rightarrow> ndarray \<Rightarrow> error + ndarray"
  waitKey :: "int \<Rightarrow> int"

datatype wait = WaitBool bool | WaitMs int

record outcome =
  window :: ndarray
  waited :: int
  returned :: bool

section \<open>visualize\_grayscale\_negative\_values\<close>

text \<open>
  \<^verbatim>\<open>
  assert image.dtype in [np.float32, np.float64], 'Image is not floating point'
  if image.ndim == 2:
      image = image[:, :, None]
  assert image.shape[2] == 1, 'Image is already 3-channel'
  blue = np.where(image < 0, -image, 0)
  green = np.zeros_like(blue)
  red = np.where(image < 0, 0, image)
  image = np.stack([blue[:,:,0], green[:,:,0], red[:,:,0]], axis=-1)
  \<close>
  \<^verbatim>\<open>image.shape[2]\<close> raises \<^verbatim>\<open>IndexError\<close> below three dimensions. Axis 2 has length 1, so
  taking its index 0 removes it from the shape and keeps the samples; stacking on a new
  last axis interleaves the three channels sample by sample.
\<close>

definition stack3_last :: "real list \<Rightarrow> real list \<Rightarrow> real list \<Rightarrow> real list" where
  "stack3_last b g r = concat (map (\<lambda>(x, y, z). [x, y, z]) (zip b (zip g r)))"

definition visualize_grayscale_negative_values :: "ndarray \<Rightarrow> error + ndarray" where
  "visualize_grayscale_negative_values img0 =
     (if \<not> is_float (dtype img0) then Inl (AssertionError ''Image is not floating point'')
      else
        let img = (if ndim img0 = 2 then img0\<lparr>shape := shape img0 @ [1]\<rparr> else img0)
        in if ndim img < 3 then Inl IndexError
           else if shape img ! 2 \<noteq> 1 then Inl (AssertionError ''Image is already 3-channel'')
           else
             let blue = map (\<lambda>v. if v < 0 then - v else 0) (data img);
                 green = map (\<lambda>v. 0) blue;
                 red = map (\<lambda>v. if v < 0 then 0 else v) (data img)
             in Inr (img\<lparr>shape := take 2 (shape img) @ drop 3 (shape img) @ [3],
                            data := stack3_last blue green red\<rparr>))"

section \<open>show\_image\<close>

text \<open>
  \<^verbatim>\<open>
  def show_image(image, wait=True, resize_to_fit=False, normalize=False,
                 visualize_negative=True):
      image = np.asarray(image)
      assert image.dtype in [np.float32, np.float64], 'Image is not floating point'
      if normalize:
          eps = 1e-15
          image = image / (np.max(image) + eps) * 255
      if resize_to_fit:
          height_scaling = DESIRED_HEIGHT / image.shape[0]
          image = cv2.resize(image, None, fx=height_scaling, fy=height_scaling, ...)
      if visualize_negative and len(image[image < 0]) > 0:
          image = visualize_grayscale_negative_values(image)
      cv2.imshow('image', image / 255)
      wait_ms = (0 if wait else 1) if isinstance(wait, bool) else wait
      return not cv2.waitKey(wait_ms) in [27, ord('q')]
  \<close>
  The function is modelled stage by stage, one definition per \<^verbatim>\<open>if\<close> block, and
  \<open>show_image\<close> runs the stages in the order of the source. \<^verbatim>\<open>ord('q')\<close> is 113.
\<close>

definition show_image_normalize :: "bool \<Rightarrow> ndarray \<Rightarrow> error + ndarray" where
  "show_image_normalize normalize' img =
     (if normalize' then and_then (np_max img) (\<lambda>m. normalize_by img m)
      else Inr img)"

definition show_image_resize :: "cv2 \<Rightarrow> bool \<Rightarrow> ndarray \<Rightarrow> error + ndarray" where
  "show_image_resize cv resize_to_fit img =
     (if resize_to_fit then
        (case shape img of
           [] \<Rightarrow> Inl IndexError
         | h # _ \<Rightarrow>
             if h = 0 then Inl ZeroDivisionError
             else
               let height_scaling = float64 (real_of_int DESIRED_HEIGHT / real h)
               in resize cv height_scaling height_scaling img)
      else Inr img)"

definition show_image_visualize :: "bool \<Rightarrow> ndarray \<Rightarrow> error + ndarray" where
  "show_image_visualize visualize_negative img =
     (if visualize_negative \<and> has_negative img
      then visualize_grayscale_negative_values img
      else Inr img)"

definition wait_ms :: "wait \<Rightarrow> int" where
  "wait_ms wait =
     (case wait of WaitBool b \<Rightarrow> (if b then 0 else 1) | WaitMs ms \<Rightarrow> ms)"

definition show_image_present :: "cv2 \<Rightarrow> wait \<Rightarrow> ndarray \<Rightarrow> outcome" where
  "show_image_present cv wait img =
     \<lparr>window = arr_div img 255,
      waited = wait_ms wait,
      returned = (\<not> (waitKey cv (wait_ms wait) = 27 \<or> waitKey cv (wait_ms wait) = 113))\<rparr>"

definition show_image :: "cv2 \<Rightarrow> ndarray \<Rightarrow> wait \<Rightarrow> bool \<Rightarrow> bool \<Rightarrow> bool \<Rightarrow> error + outcome" where
  "show_image cv img wait resize_to_fit normalize' visualize_negative =
     (if \<not> is_float (dtype img) then Inl (AssertionError ''Image is not floating point'')
      else
        and_then (show_image_normalize normalize' img) (\<lambda>img1.
        and_then (show_image_resize cv resize_to_fit img1) (\<lambda>img2.
        and_then (show_image_visualize visualize_negative img2) (\<lambda>img3.
        Inr (show_image_present cv wait img3)))))"

section \<open>show\_images\_grid\<close>

text \<open>
  The geometry of the grid, lines 73 to 87 of the source:
  \<^verbatim>\<open>
  total_row_padding = (n_rows + 1) * padding
  total_col_padding = (n_cols + 1) * padding
  total_images_height = n_rows * img_height
  total_images_width = n_cols * img_width
  height_scaling = (DESIRED_HEIGHT - total_row_padding) / total_images_height
  width_scaling = height_scaling  # keep aspect ratio
  if resize_to_fit:
      resize = lambda img: cv2.resize(img, None, fx=width_scaling, fy=height_scaling, ...)
      new_height = round(height_scaling * img_height)
      new_width = round(width_scaling * img_width)
  else:
      resize = lambda img: img
      new_height, new_width = img_height, img_width
  \<close>
  \<open>padding\<close> is a Python \<^verbatim>\<open>int\<close>, so the quotient is a true division of two integers:
  it raises \<^verbatim>\<open>ZeroDivisionError\<close> when \<^verbatim>\<open>total_images_height\<close> is 0 and is otherwise
  the float64 nearest to the exact quotient. In \<^verbatim>\<open>height_scaling * img_height\<close> the
  integer is converted to a float and the product is rounded to a float64 before
  \<^verbatim>\<open>round\<close> sees it.
\<close>

record geometry =
  total_row_padding :: int
  total_col_padding :: int
  height_scaling :: real
  width_scaling :: real
  new_height :: int
  new_width :: int

definition grid_geometry :: "int \<Rightarrow> bool \<Rightarrow> int \<Rightarrow> int \<Rightarrow> nat \<Rightarrow> nat \<Rightarrow> error + geometry" where
  "grid_geometry padding resize_to_fit n_rows n_cols img_height img_width =
     (let trp = (n_rows + 1) * padding;
          tcp = (n_cols + 1) * padding;
          total_images_height = n_rows * int img_height
      in if total_images_height = 0 then Inl ZeroDivisionError
         else
           let hs = float64 (real_of_int (DESIRED_HEIGHT - trp)
                               / real_of_int total_images_height);
               ws = hs
           in Inr \<lparr>total_row_padding = trp, total_col_padding = tcp,
                   height_scaling = hs, width_scaling = ws,
                   new_height =
                     (if resize_to_fit then py_round (float64 (hs * float64 (real img_height)))
                      else int img_height),
                   new_width =
                     (if resize_to_fit then py_round (float64 (ws * float64 (real img_width)))
                      else int img_width)\<rparr>)"

definition grid_resize :: "cv2 \<Rightarrow> bool \<Rightarrow> geometry \<Rightarrow> ndarray \<Rightarrow> error + ndarray" where
  \<comment> \<open>the function that the source binds to the name \<^verbatim>\<open>resize\<close>\<close>
  "grid_resize cv resize_to_fit g img =
     (if resize_to_fit then resize cv (width_scaling g) (height_scaling g) img
      else Inr img)"

text \<open>
  The body of the two nested loops, lines 94 to 108:
  \<^verbatim>\<open>
  n = row * n_cols + col
  if n >= n_images:
      continue
  image = resize(images[n, :, :])
  base_height = (row+1) * padding + row * new_height
  base_width = (col+1) * padding + col * new_width
  slice_h = slice(base_height, base_height + new_height)
  slice_w = slice(base_width, base_width + new_width)
  if normalize:
      eps = 1e-15
      image = image / (np.max(np.abs(image)) + eps) * 255
  grid_image[slice_h, slice_w] = image
  \<close>
\<close>

definition grid_normalize :: "bool \<Rightarrow> ndarray \<Rightarrow> error + ndarray" where
  \<comment> \<open>\<^verbatim>\<open>if normalize: image = image / (np.max(np.abs(image)) + eps) * 255\<close>\<close>
  "grid_normalize normalize' img =
     (if normalize' then and_then (np_max (np_abs img)) (\<lambda>m. normalize_by img m)
      else Inr img)"

definition base_of :: "int \<Rightarrow> int \<Rightarrow> nat \<Rightarrow> int" where
  \<comment> \<open>\<^verbatim>\<open>(k+1) * padding + k * new_size\<close>\<close>
  "base_of padding new_size k = (int k + 1) * padding + int k * new_size"

definition place_image ::
  "cv2 \<Rightarrow> ndarray \<Rightarrow> int \<Rightarrow> bool \<Rightarrow> bool \<Rightarrow> int \<Rightarrow> geometry \<Rightarrow> ndarray \<Rightarrow> nat \<times> nat
     \<Rightarrow> error + ndarray" where
  "place_image cv images padding resize_to_fit normalize' n_cols g grid_image cell =
     (let row = fst cell; col = snd cell;
          n = int row * n_cols + int col
      in if int (shape images ! 0) \<le> n then Inr grid_image
         else
           and_then (grid_resize cv resize_to_fit g (image_at images (nat n))) (\<lambda>img.
             let base_height = base_of padding (new_height g) row;
                 base_width = base_of padding (new_width g) col;
                 slice_h = (base_height, base_height + new_height g);
                 slice_w = (base_width, base_width + new_width g)
             in and_then (grid_normalize normalize' img)
                  (\<lambda>img'. setitem2 grid_image slice_h slice_w img')))"

text \<open>
  Lines 65 to 108: the grid image that \<open>show_images_grid\<close> hands to \<open>show_image\<close>.
  \<^verbatim>\<open>
  images = np.asarray(images)
  assert images.ndim in [3, 4], 'Images - wrong ndim (shape = %s)' % images.shape
  images = images.squeeze(axis=-1)  # remove channels axis
  n_images = images.shape[0]
  n_rows, n_cols = best_grid(n_images)
  img_height, img_width = images.shape[1:]
  ...
  grid_image = np.ones([n_rows * new_height + total_row_padding,
      n_cols * new_width + total_col_padding]) * DEFAULT_BACKGROUND_COLOR
  for row in range(n_rows):
      for col in range(n_cols):
          ...
  \<close>
  When the assertion fails its message is built with \<^verbatim>\<open>%\<close> from the shape tuple, which
  formats only for a tuple of one element: for one dimension the failure is the
  \<^verbatim>\<open>AssertionError\<close>, for any other number of dimensions it is a \<^verbatim>\<open>TypeError\<close>.
  The unpacking of \<^verbatim>\<open>images.shape[1:]\<close> raises \<^verbatim>\<open>ValueError\<close> unless two dimensions
  are left.
\<close>

definition build_grid_image :: "cv2 \<Rightarrow> ndarray \<Rightarrow> int \<Rightarrow> bool \<Rightarrow> bool \<Rightarrow> error + ndarray" where
  "build_grid_image cv images0 padding resize_to_fit normalize' =
     (if \<not> (ndim images0 = 3 \<or> ndim images0 = 4)
      then (if ndim images0 = 1 then Inl (AssertionError ''Images - wrong ndim'')
            else Inl TypeError)
      else
        and_then (squeeze_last images0) (\<lambda>images.
        and_then (best_grid (int (shape images ! 0))) (\<lambda>(n_rows, n_cols).
          case tl (shape images) of
            [img_height, img_width] \<Rightarrow>
              and_then (grid_geometry padding resize_to_fit n_rows n_cols img_height img_width)
                (\<lambda>g.
              and_then (np_ones_times (n_rows * new_height g + total_row_padding g)
                          (n_cols * new_width g + total_col_padding g)
                          DEFAULT_BACKGROUND_COLOR) (\<lambda>grid.
              for_each (place_image cv images padding resize_to_fit normalize' n_cols g)
                (List.product [0..<nat n_rows] [0..<nat n_cols]) grid))
          | _ \<Rightarrow> Inl ValueError)))"

definition show_images_grid ::
  "cv2 \<Rightarrow> ndarray \<Rightarrow> wait \<Rightarrow> int \<Rightarrow> bool \<Rightarrow> bool \<Rightarrow> bool \<Rightarrow> error + outcome" where
  \<comment> \<open>line 109: \<^verbatim>\<open>return show_image(grid_image, wait=wait,
      visualize_negative=visualize_negative)\<close>\<close>
  "show_images_grid cv images wait padding resize_to_fit normalize' visualize_negative =
     and_then (build_grid_image cv images padding resize_to_fit normalize') (\<lambda>grid.
       show_image cv grid wait False False visualize_negative)"

section \<open>Placement rectangles and example instances\<close>

definition in_cell :: "int \<Rightarrow> geometry \<Rightarrow> nat \<Rightarrow> nat \<Rightarrow> nat \<Rightarrow> nat \<Rightarrow> bool" where
  \<comment> \<open>position \<open>(i, j)\<close> lies in \<^verbatim>\<open>slice_h\<close> by \<^verbatim>\<open>slice_w\<close> of the cell \<open>(row, col)\<close>\<close>
  "in_cell padding g row col i j =
     (base_of padding (new_height g) row \<le> int i
      \<and> int i < base_of padding (new_height g) row + new_height g
      \<and> base_of padding (new_width g) col \<le> int j
      \<and> int j < base_of padding (new_width g) col + new_width g)"

definition cell_at_background :: "ndarray \<Rightarrow> int \<Rightarrow> geometry \<Rightarrow> nat \<times> nat \<Rightarrow> bool" where
  \<comment> \<open>every sample of \<^verbatim>\<open>grid_image[slice_h, slice_w]\<close> of the cell, a rectangle inside the
      grid image, is the background value\<close>
  "cell_at_background grid padding g cell =
     (let bh = base_of padding (new_height g) (fst cell);
          bw = base_of padding (new_width g) (snd cell)
      in list_all
           (\<lambda>i. list_all (\<lambda>j. at2 grid i j = DEFAULT_BACKGROUND_COLOR)
                   [nat bw..<nat (bw + new_width g)])
           [nat bh..<nat (bh + new_height g)])"

definition scaled :: "ndarray \<Rightarrow> real \<Rightarrow> ndarray" where
  \<comment> \<open>the array \<^verbatim>\<open>img / (m + eps) * 255\<close>\<close>
  "scaled img m =
     img\<lparr>dtype := true_div_dtype (dtype img),
         data := map (\<lambda>v. v / (m + eps) * 255) (data img)\<rparr>"

definition key_cv :: "int \<Rightarrow> cv2" where
  \<comment> \<open>an OpenCV whose \<^verbatim>\<open>resize\<close> always raises and whose \<^verbatim>\<open>waitKey\<close> reports \<open>key\<close>\<close>
  "key_cv key = \<lparr>resize = (\<lambda>fx fy src. Inl CvError), waitKey = (\<lambda>ms. key)\<rparr>"

definition float_image :: "nat list \<Rightarrow> real list \<Rightarrow> ndarray" where
  "float_image sh xs = \<lparr>dtype = Float64, shape = sh, data = xs\<rparr>"

section \<open>Properties of best\_grid\<close>

lemma floor_sqrt_bounds:
  assumes "0 \<le> k" "k * k \<le> N" "N < (k + 1) * (k + 1)"
  shows "\<lfloor>sqrt (real_of_int N)\<rfloor> = k"
proof -
  have N0: "0 \<le> N" using assms(1,2) by (meson mult_nonneg_nonneg order_trans)
  have "(real_of_int k)\<^sup>2 \<le> real_of_int N"
    using assms(2) by (metis of_int_le_iff of_int_mult power2_eq_square)
  then have lo: "real_of_int k \<le> sqrt (real_of_int N)"
    using assms(1) by (simp add: real_le_rsqrt)
  have "real_of_int N < (real_of_int (k + 1))\<^sup>2"
    using assms(3) by (metis of_int_less_iff of_int_mult power2_eq_square)
  then have hi: "sqrt (real_of_int N) < real_of_int (k + 1)"
    using assms(1) N0 by (simp add: real_less_lsqrt)
  from lo hi show ?thesis by (simp add: floor_eq_iff)
qed

lemma floor_sqrt_ge1:
  assumes "1 \<le> N"
  shows "1 \<le> \<lfloor>sqrt (real_of_int N)\<rfloor>"
proof -
  have "1 \<le> sqrt (real_of_int N)" using assms by simp
  then show ?thesis by (simp add: le_floor_iff)
qed

lemma floor_sqrt_square_le:
  assumes "1 \<le> N"
  shows "\<lfloor>sqrt (real_of_int N)\<rfloor> * \<lfloor>sqrt (real_of_int N)\<rfloor> \<le> N"
proof -
  let ?r = "\<lfloor>sqrt (real_of_int N)\<rfloor>"
  have r0: "0 \<le> real_of_int ?r" using floor_sqrt_ge1 [OF assms] by simp
  have le: "real_of_int ?r \<le> sqrt (real_of_int N)" by (rule of_int_floor_le)
  have N0: "0 \<le> real_of_int N" using assms by linarith
  then have s0: "0 \<le> sqrt (real_of_int N)" by simp
  have "real_of_int ?r * real_of_int ?r \<le> sqrt (real_of_int N) * sqrt (real_of_int N)"
    by (rule mult_mono [OF le le s0 r0])
  also have "\<dots> = real_of_int N" using N0 by simp
  finally have "real_of_int (?r * ?r) \<le> real_of_int N" by simp
  then show ?thesis by (simp only: of_int_le_iff)
qed

lemma float64_eval:
  assumes "2 powi e \<le> \<bar>x\<bar>" "\<bar>x\<bar> < 2 powi (e + 1)"
  shows "float64 x = real_of_int (py_round (x / 2 powi (e - 52))) * 2 powi (e - 52)"
proof -
  have "(0::real) < 2 powi e" by simp
  with assms(1) have x0: "0 < \<bar>x\<bar>" by linarith
  have "(2::real) powr real_of_int e = 2 powi e"
    "(2::real) powr (real_of_int e + 1) = 2 powi (e + 1)"
    using powr_real_of_int' [of 2 e] powr_real_of_int' [of 2 "e + 1"] by simp_all
  with assms have "\<lfloor>log 2 \<bar>x\<bar>\<rfloor> = e"
    using floor_log_eq_powr_iff [of "\<bar>x\<bar>" 2 e] x0 by simp
  moreover have "x \<noteq> 0" using x0 by simp
  ultimately show ?thesis by (simp add: float64_def Let_def)
qed

lemma float64_0: "float64 0 = 0"
  by (simp add: float64_def)

lemma float64_1: "float64 1 = 1"
  by (subst float64_eval [of 0]) (simp_all add: py_round_def Let_def)

lemma float64_7: "float64 7 = 7"
  by (subst float64_eval [of 2]) (simp_all add: py_round_def Let_def)

lemma float64_neg_100: "float64 (- 100) = - 100"
  by (subst float64_eval [of 6]) (simp_all add: py_round_def Let_def)

lemma float64_neg_700: "float64 (- 700) = - 700"
  by (subst float64_eval [of 9]) (simp_all add: py_round_def Let_def)

lemma py_round_of_int: "py_round (real_of_int k) = k"
  by (simp add: py_round_def Let_def)


lemma floor_sqrt_le_ceiling_div:
  assumes "1 \<le> N"
  shows "\<lfloor>sqrt (real_of_int N)\<rfloor>
           \<le> \<lceil>real_of_int N / real_of_int \<lfloor>sqrt (real_of_int N)\<rfloor>\<rceil>"
proof -
  let ?r = "\<lfloor>sqrt (real_of_int N)\<rfloor>"
  have rpos: "0 < real_of_int ?r" using floor_sqrt_ge1 [OF assms] by simp
  have "real_of_int (?r * ?r) \<le> real_of_int N"
    using floor_sqrt_square_le [OF assms] by (simp only: of_int_le_iff)
  then have "real_of_int ?r * real_of_int ?r \<le> real_of_int N" by simp
  then have "real_of_int ?r \<le> real_of_int N / real_of_int ?r"
    by (simp only: pos_le_divide_eq [OF rpos])
  also have "\<dots> \<le> real_of_int \<lceil>real_of_int N / real_of_int ?r\<rceil>"
    by (rule le_of_int_ceiling)
  finally show ?thesis by (simp only: of_int_le_iff)
qed

lemma best_grid_defined:
  assumes "1 \<le> N"
  shows "\<exists>rows cols. best_grid N = Inr (rows, cols)"
  using assms by (simp add: best_grid_def Let_def)

lemma best_grid_value:
  assumes "0 < k" "k * k \<le> N" "N < (k + 1) * (k + 1)"
  shows "best_grid N = Inr (k, \<lceil>real_of_int N / real_of_int k\<rceil>)"
proof -
  have "0 < k * k" using assms(1) by simp
  then have "0 < N" using assms(2) by linarith
  moreover have "\<lfloor>sqrt (real_of_int N)\<rfloor> = k"
    using assms by (intro floor_sqrt_bounds) simp_all
  ultimately show ?thesis by (simp add: best_grid_def Let_def)
qed

lemma best_grid_1: "best_grid 1 = Inr (1, 1)"
  using best_grid_value [of 1 1] by simp

lemma best_grid_7: "best_grid 7 = Inr (2, 4)"
  using best_grid_value [of 2 7] by (simp add: ceiling_eq_iff)

lemma best_grid_Inr_pos:
  assumes "best_grid N = Inr (rows, cols)"
  shows "1 \<le> N" "1 \<le> rows" "rows \<le> cols"
proof -
  show N: "1 \<le> N" using assms by (auto simp: best_grid_def split: if_splits)
  have r: "rows = \<lfloor>sqrt (real_of_int N)\<rfloor>"
    and c: "cols = \<lceil>real_of_int N / real_of_int rows\<rceil>"
    using assms by (auto simp: best_grid_def Let_def split: if_splits)
  show "1 \<le> rows" unfolding r by (rule floor_sqrt_ge1 [OF N])
  show "rows \<le> cols" using floor_sqrt_le_ceiling_div [OF N] r c by simp
qed



section \<open>Properties of visualize\_grayscale\_negative\_values\<close>

lemma stack3_last_Cons:
  "stack3_last (x # b) (y # g) (z # r) = x # y # z # stack3_last b g r"
  by (simp add: stack3_last_def)

lemma stack3_last_length:
  "length g = length b \<Longrightarrow> length r = length b \<Longrightarrow> length (stack3_last b g r) = 3 * length b"
proof (induction b arbitrary: g r)
  case Nil
  then show ?case by (simp add: stack3_last_def)
next
  case (Cons x b)
  then obtain y g' z r' where "g = y # g'" "r = z # r'"
    by (metis length_Suc_conv)
  with Cons show ?case by (simp add: stack3_last_Cons)
qed

lemma stack3_last_nth:
  "length g = length b \<Longrightarrow> length r = length b \<Longrightarrow> k < length b \<Longrightarrow>
     stack3_last b g r ! (k * 3) = b ! k
   \<and> stack3_last b g r ! (k * 3 + 1) = g ! k
   \<and> stack3_last b g r ! (k * 3 + 2) = r ! k"
proof (induction b arbitrary: g r k)
  case Nil
  then show ?case by simp
next
  case (Cons x b)
  then obtain y g' z r' where gr: "g = y # g'" "r = z # r'"
    by (metis length_Suc_conv)
  show ?case
  proof (cases k)
    case 0
    then show ?thesis by (simp add: gr stack3_last_Cons)
  next
    case (Suc k')
    with Cons.prems gr have "k' < length b" "length g' = length b" "length r' = length b"
      by simp_all
    from Cons.IH [OF this(2,3,1)] show ?thesis
      by (simp add: gr Suc stack3_last_Cons numeral_3_eq_3)
  qed
qed

lemma flat_index_less:
  fixes i j h w :: nat
  assumes "i < h" "j < w"
  shows "i * w + j < h * w"
proof -
  have "i * w + j < i * w + w" using assms(2) by simp
  also have "\<dots> = Suc i * w" by simp
  also have "\<dots> \<le> h * w" using assms(1) by (intro mult_le_mono1) simp
  finally show ?thesis .
qed

lemma visualize_single_channel:
  assumes fl: "is_float (dtype img)" and w: "wf img"
    and sh: "shape img = [h, w] \<or> shape img = [h, w, 1]"
  shows "\<exists>out. visualize_grayscale_negative_values img = Inr out
           \<and> shape out = [h, w, 3] \<and> wf out
           \<and> (\<forall>i j. i < h \<longrightarrow> j < w \<longrightarrow>
                 at3 out i j 0 = max (- at2 img i j) 0
               \<and> at3 out i j 1 = 0
               \<and> at3 out i j 2 = max (at2 img i j) 0)"
proof -
  let ?blue = "map (\<lambda>v. if v < 0 then - v else 0) (data img)"
  let ?green = "map (\<lambda>v. 0::real) ?blue"
  let ?red = "map (\<lambda>v. if v < 0 then 0 else v) (data img)"
  let ?out = "img\<lparr>shape := [h, w, 3], data := stack3_last ?blue ?green ?red\<rparr>"
  have len: "length (data img) = h * w" using w sh by (auto simp: wf_def)
  have res: "visualize_grayscale_negative_values img = Inr ?out"
    using fl sh by (auto simp: visualize_grayscale_negative_values_def ndim_def Let_def)
  have wfo: "wf ?out"
  proof -
    have "length (stack3_last ?blue ?green ?red) = 3 * length ?blue"
      by (rule stack3_last_length) simp_all
    then show ?thesis by (simp add: wf_def len)
  qed
  have el: "at3 ?out i j 0 = max (- at2 img i j) 0 \<and> at3 ?out i j 1 = 0
            \<and> at3 ?out i j 2 = max (at2 img i j) 0" if "i < h" "j < w" for i j
  proof -
    have k: "i * w + j < length ?blue" using flat_index_less [OF that] len by simp
    have s1: "shape img ! Suc 0 = w" using sh by auto
    from stack3_last_nth [of ?green ?blue ?red "i * w + j"] k
    show ?thesis using k by (simp add: at3_def at2_def s1 max_def)
  qed
  from res wfo el show ?thesis by (intro exI [of _ ?out]) simp
qed

lemma visualize_rejects_non_float:
  "\<not> is_float (dtype img) \<Longrightarrow>
     visualize_grayscale_negative_values img = Inl (AssertionError ''Image is not floating point'')"
  by (simp add: visualize_grayscale_negative_values_def)

lemma visualize_rejects_channels:
  "is_float (dtype img) \<Longrightarrow> shape img = [h, w, c] \<Longrightarrow> c \<noteq> 1 \<Longrightarrow>
     visualize_grayscale_negative_values img = Inl (AssertionError ''Image is already 3-channel'')"
  by (simp add: visualize_grayscale_negative_values_def ndim_def Let_def)

text \<open>
  C5. For every single-channel floating-point image (shape \<open>[h, w]\<close> or \<open>[h, w, 1]\<close>),
  \<open>visualize_grayscale_negative_values\<close> returns a 3-channel image of shape \<open>[h, w, 3]\<close>
  whose channels are, for each sample \<open>v\<close>: blue \<open>max (- v) 0\<close>, green \<open>0\<close>, red
  \<open>max v 0\<close>. It fails its first assertion for an input that is not floating point, and
  its second for an input with three axes whose channel axis is not of length 1.
\<close>

theorem visualize_sign_encoding:
  "(is_float (dtype img) \<and> wf img \<and> (shape img = [h, w] \<or> shape img = [h, w, 1]) \<longrightarrow>
      (\<exists>out. visualize_grayscale_negative_values img = Inr out
           \<and> shape out = [h, w, 3] \<and> wf out
           \<and> (\<forall>i j. i < h \<longrightarrow> j < w \<longrightarrow>
                 at3 out i j 0 = max (- at2 img i j) 0
               \<and> at3 out i j 1 = 0
               \<and> at3 out i j 2 = max (at2 img i j) 0)))
   \<and> (\<not> is_float (dtype img) \<longrightarrow>
        visualize_grayscale_negative_values img
          = Inl (AssertionError ''Image is not floating point''))
   \<and> (is_float (dtype img) \<and> shape img = [h, w, c] \<and> c \<noteq> 1 \<longrightarrow>
        visualize_grayscale_negative_values img
          = Inl (AssertionError ''Image is already 3-channel''))"
  using visualize_single_channel [of img h w] visualize_rejects_non_float [of img]
    visualize_rejects_channels [of img h w c]
  by blast

theorem visualize_sign_encoding_witness:
  "\<exists>out. visualize_grayscale_negative_values (float_image [1, 2] [- 2, 3]) = Inr out
     \<and> shape out = [1, 2, 3]
     \<and> at3 out 0 0 0 = 2 \<and> at3 out 0 0 1 = 0 \<and> at3 out 0 0 2 = 0
     \<and> at3 out 0 1 0 = 0 \<and> at3 out 0 1 1 = 0 \<and> at3 out 0 1 2 = 3"
proof -
  let ?img = "float_image [1, 2] [- 2, 3]"
  have pre: "is_float (dtype ?img) \<and> wf ?img \<and> (shape ?img = [1, 2] \<or> shape ?img = [1, 2, 1])"
    by (simp add: float_image_def is_float_def wf_def)
  from visualize_sign_encoding [of ?img 1 2 0] pre obtain out where
    r: "visualize_grayscale_negative_values ?img = Inr out" and s: "shape out = [1, 2, 3]"
    and e: "\<And>i j. i < 1 \<Longrightarrow> j < 2 \<Longrightarrow>
              at3 out i j 0 = max (- at2 ?img i j) 0 \<and> at3 out i j 1 = 0
              \<and> at3 out i j 2 = max (at2 ?img i j) 0"
    by blast
  from e [of 0 0] e [of 0 1] have
    "at3 out 0 0 0 = 2 \<and> at3 out 0 0 1 = 0 \<and> at3 out 0 0 2 = 0
     \<and> at3 out 0 1 0 = 0 \<and> at3 out 0 1 1 = 0 \<and> at3 out 0 1 2 = 3"
    by (simp add: at2_def float_image_def)
  with r s show ?thesis by blast
qed

section \<open>Properties of show\_image\<close>

lemma and_then_Inr_iff:
  "and_then m f = Inr y \<longleftrightarrow> (\<exists>x. m = Inr x \<and> f x = Inr y)"
  by (cases m) (simp_all add: and_then_def)

lemma and_then_Inr [simp]: "and_then (Inr x) f = f x"
  by (simp add: and_then_def)

lemma and_then_Inl [simp]: "and_then (Inl e) f = Inl e"
  by (simp add: and_then_def)

lemma show_image_stages:
  assumes "is_float (dtype img)"
    and "show_image_normalize normalize' img = Inr img1"
    and "show_image_resize cv resize_to_fit img1 = Inr img2"
  shows "show_image cv img wait resize_to_fit normalize' visualize_negative =
           and_then (show_image_visualize visualize_negative img2)
             (\<lambda>img3. Inr (show_image_present cv wait img3))"
  using assms by (simp add: show_image_def)

lemma show_image_returned:
  assumes "show_image cv img wait resize_to_fit normalize' visualize_negative = Inr out"
  shows "returned out
           = (waitKey cv (wait_ms wait) \<noteq> 27 \<and> waitKey cv (wait_ms wait) \<noteq> 113)"
  using assms
  by (auto simp: show_image_def and_then_Inr_iff show_image_present_def split: if_splits)

text \<open>
  C1. The claim: \<open>show_image\<close> returns \<open>True\<close> exactly when the key reported by
  \<^verbatim>\<open>cv2.waitKey\<close> is escape (27) or \<open>q\<close> (113), and \<open>False\<close> otherwise. The code returns
  \<^verbatim>\<open>not key in [27, ord('q')]\<close>, which Python reads as \<^verbatim>\<open>not (key in [...])\<close>: on escape
  and on \<open>q\<close> the result is \<open>False\<close>, and when no key was pressed (\<open>-1\<close>) it is \<open>True\<close>.
\<close>

theorem show_image_quit_keys_return_False:
  "show_image (key_cv 27) (float_image [1, 1] [0]) (WaitBool True) False False True
     = Inr \<lparr>window = float_image [1, 1] [0], waited = 0, returned = False\<rparr>
   \<and> show_image (key_cv 113) (float_image [1, 1] [0]) (WaitBool True) False False True
     = Inr \<lparr>window = float_image [1, 1] [0], waited = 0, returned = False\<rparr>
   \<and> show_image (key_cv (- 1)) (float_image [1, 1] [0]) (WaitBool False) False False True
     = Inr \<lparr>window = float_image [1, 1] [0], waited = 1, returned = True\<rparr>"
  by (simp add: show_image_def show_image_normalize_def show_image_resize_def
      show_image_visualize_def show_image_present_def has_negative_def wait_ms_def
      arr_div_def true_div_dtype_def key_cv_def float_image_def is_float_def)

lemma has_negative_iff: "has_negative img \<longleftrightarrow> (\<exists>v \<in> set (data img). v < 0)"
  by (simp add: has_negative_def filter_empty_conv)

text \<open>
  C10. Even when \<open>visualize_negative\<close> is true, \<open>show_image\<close> applies the 3-channel
  sign encoding only if the buffer, after the optional normalization and resize, holds a
  strictly negative sample. A buffer without one is presented as it is, divided by 255,
  with its shape unchanged; a buffer with one is presented through
  \<open>visualize_grayscale_negative_values\<close>.
\<close>

theorem show_image_encodes_only_negative:
  assumes "is_float (dtype img)"
    and "show_image_normalize normalize' img = Inr img1"
    and "show_image_resize cv resize_to_fit img1 = Inr img2"
  shows "((\<forall>v \<in> set (data img2). 0 \<le> v) \<longrightarrow>
            (\<exists>out. show_image cv img wait resize_to_fit normalize' True = Inr out
               \<and> window out = arr_div img2 255
               \<and> shape (window out) = shape img2
               \<and> data (window out) = map (\<lambda>v. v / 255) (data img2)))
       \<and> ((\<exists>v \<in> set (data img2). v < 0) \<longrightarrow>
            show_image cv img wait resize_to_fit normalize' True =
              and_then (visualize_grayscale_negative_values img2)
                (\<lambda>img3. Inr (show_image_present cv wait img3)))"
proof (intro conjI impI)
  assume "\<forall>v \<in> set (data img2). 0 \<le> v"
  then have "\<not> has_negative img2" by (auto simp: has_negative_iff)
  then have "show_image cv img wait resize_to_fit normalize' True
               = Inr (show_image_present cv wait img2)"
    by (simp add: show_image_stages [OF assms] show_image_visualize_def)
  then show "\<exists>out. show_image cv img wait resize_to_fit normalize' True = Inr out
               \<and> window out = arr_div img2 255
               \<and> shape (window out) = shape img2
               \<and> data (window out) = map (\<lambda>v. v / 255) (data img2)"
    by (simp add: show_image_present_def arr_div_def)
next
  assume "\<exists>v \<in> set (data img2). v < 0"
  then have "has_negative img2" by (simp add: has_negative_iff)
  then show "show_image cv img wait resize_to_fit normalize' True =
              and_then (visualize_grayscale_negative_values img2)
                (\<lambda>img3. Inr (show_image_present cv wait img3))"
    by (simp add: show_image_stages [OF assms] show_image_visualize_def)
qed

theorem show_image_encodes_only_negative_witness:
  "(\<exists>out. show_image (key_cv 0) (float_image [1, 2] [51, 102]) (WaitMs 5) False False True
            = Inr out
        \<and> shape (window out) = [1, 2] \<and> data (window out) = [1 / 5, 2 / 5])
   \<and> (\<exists>out. show_image (key_cv 0) (float_image [1, 2] [- 51, 102]) (WaitMs 5) False False True
            = Inr out
        \<and> shape (window out) = [1, 2, 3] \<and> data (window out) = [1 / 5, 0, 0, 0, 0, 2 / 5])"
proof -
  let ?a = "float_image [1, 2] [51, 102]" and ?b = "float_image [1, 2] [- 51, 102]"
  have fa: "is_float (dtype ?a)" and fb: "is_float (dtype ?b)"
    by (simp_all add: float_image_def is_float_def)
  have na: "show_image_normalize False ?a = Inr ?a" and nb: "show_image_normalize False ?b = Inr ?b"
    by (simp_all add: show_image_normalize_def)
  have ra: "show_image_resize (key_cv 0) False ?a = Inr ?a"
    and rb: "show_image_resize (key_cv 0) False ?b = Inr ?b"
    by (simp_all add: show_image_resize_def)
  have "\<forall>v \<in> set (data ?a). 0 \<le> v" by (simp add: float_image_def)
  with show_image_encodes_only_negative [OF fa na ra, of "WaitMs 5"]
  have A: "\<exists>out. show_image (key_cv 0) ?a (WaitMs 5) False False True = Inr out
        \<and> shape (window out) = [1, 2] \<and> data (window out) = [1 / 5, 2 / 5]"
    by (auto simp: float_image_def)
  have "\<exists>v \<in> set (data ?b). v < 0" by (simp add: float_image_def)
  with show_image_encodes_only_negative [OF fb nb rb, of "WaitMs 5"]
  have "show_image (key_cv 0) ?b (WaitMs 5) False False True =
              and_then (visualize_grayscale_negative_values ?b)
                (\<lambda>img3. Inr (show_image_present (key_cv 0) (WaitMs 5) img3))"
    by blast
  then have B: "\<exists>out. show_image (key_cv 0) ?b (WaitMs 5) False False True = Inr out
        \<and> shape (window out) = [1, 2, 3] \<and> data (window out) = [1 / 5, 0, 0, 0, 0, 2 / 5]"
    by (simp add: visualize_grayscale_negative_values_def float_image_def is_float_def
        ndim_def stack3_last_def show_image_present_def arr_div_def)
  from A B show ?thesis by blast
qed

section \<open>The batch argument of show\_images\_grid\<close>

lemma build_grid_image_3d_fails:
  assumes "ndim images = 3"
  shows "\<exists>e. build_grid_image cv images padding resize_to_fit normalize' = Inl e"
proof -
  from assms obtain a b c where sh: "shape images = [a, b, c]"
    by (auto simp: ndim_def length_Suc_conv numeral_3_eq_3)
  show ?thesis
  proof (cases "c = 1")
    case False
    then show ?thesis
      using sh by (simp add: build_grid_image_def ndim_def squeeze_last_def)
  next
    case True
    show ?thesis
    proof (cases "best_grid (int a)")
      case (Inl e)
      then show ?thesis
        using sh True by (simp add: build_grid_image_def ndim_def squeeze_last_def)
    next
      case (Inr rc)
      then show ?thesis
        using sh True
        by (cases rc) (simp add: build_grid_image_def ndim_def squeeze_last_def)
    qed
  qed
qed

text \<open>
  C2. The claim: \<open>show_images_grid\<close> accepts a batch of shape \<open>[N, H, W]\<close> as well as
  one of shape \<open>[N, H, W, 1]\<close> and drops the last axis only in the 4-dimensional case.
  The code calls \<^verbatim>\<open>images.squeeze(axis=-1)\<close> whatever the number of dimensions, so a
  3-dimensional batch never gets through: either its last axis is not of length 1 and
  \<^verbatim>\<open>squeeze\<close> raises, or it is and the unpacking of \<^verbatim>\<open>images.shape[1:]\<close> raises.
\<close>

theorem show_images_grid_rejects_3d:
  assumes "ndim images = 3"
  shows "\<exists>e. show_images_grid cv images wait padding resize_to_fit normalize' visualize_negative
               = Inl e"
  using build_grid_image_3d_fails [OF assms, of cv padding resize_to_fit normalize']
  by (auto simp: show_images_grid_def)

theorem show_images_grid_rejects_3d_witness:
  "ndim (float_image [1, 2, 2] [1, 2, 3, 4]) = 3
   \<and> (\<exists>e. show_images_grid (key_cv 0) (float_image [1, 2, 2] [1, 2, 3, 4]) (WaitBool True) 1
             False False True = Inl e)"
proof -
  have h: "ndim (float_image [1, 2, 2] [1, 2, 3, 4]) = 3"
    by (simp add: ndim_def float_image_def)
  from show_images_grid_rejects_3d [OF h] h show ?thesis by blast
qed

lemma show_images_grid_3d_example:
  "show_images_grid cv (float_image [1, 2, 2] [1, 2, 3, 4]) wait padding resize_to_fit
     normalize' visualize_negative = Inl ValueError"
  by (simp add: show_images_grid_def build_grid_image_def ndim_def squeeze_last_def
      float_image_def)

section \<open>Properties of the two normalizations\<close>

lemma foldl_max_Max: "foldl max (x::'a::linorder) xs = Max (set (x # xs))"
proof -
  have "(\<lambda>a b. max b a) = (max :: 'a::linorder \<Rightarrow> 'a \<Rightarrow> 'a)"
    by (intro ext) (rule max.commute)
  then have "foldl max x xs = fold max xs x"
    by (simp add: foldl_conv_fold)
  then show ?thesis by (simp only: Max.set_eq_fold)
qed

lemma np_max_Max:
  assumes "data a \<noteq> []"
  shows "np_max a = Inr (Max (set (data a)))"
proof -
  from assms obtain x xs where d: "data a = x # xs" by (cases "data a") auto
  then show ?thesis by (simp add: np_max_def foldl_max_Max del: set_simps)
qed

lemma np_max_abs_Max:
  assumes "data a \<noteq> []"
  shows "np_max (np_abs a) = Inr (Max (abs ` set (data a)))"
proof -
  have "data (np_abs a) \<noteq> []" using assms by (simp add: np_abs_def)
  from np_max_Max [OF this] show ?thesis by (simp add: np_abs_def)
qed

lemma eps_pos: "0 < eps"
  by (simp add: eps_def)

lemma Max_abs_nonneg:
  fixes xs :: "real list"
  assumes "xs \<noteq> []"
  shows "0 \<le> Max (abs ` set xs)"
proof -
  from assms obtain x where x: "x \<in> set xs" by (cases xs) auto
  then have "\<bar>x\<bar> \<le> Max (abs ` set xs)" by (intro Max_ge) auto
  then show ?thesis using abs_ge_zero [of x] by linarith
qed

lemma normalize_by_scaled:
  "m + eps \<noteq> 0 \<Longrightarrow> normalize_by img m = Inr (scaled img m)"
  by (simp add: normalize_by_def scaled_def arr_mul_def arr_div_def)

lemma grid_normalize_scaled:
  assumes "data img \<noteq> []"
  shows "grid_normalize True img = Inr (scaled img (Max (abs ` set (data img))))"
proof -
  have "0 < Max (abs ` set (data img)) + eps"
    using Max_abs_nonneg [OF assms] eps_pos by linarith
  then have "Max (abs ` set (data img)) + eps \<noteq> 0" by simp
  then show ?thesis
    by (simp add: grid_normalize_def np_max_abs_Max [OF assms] normalize_by_scaled)
qed

lemma show_image_normalize_scaled:
  assumes "data img \<noteq> []" "Max (set (data img)) + eps \<noteq> 0"
  shows "show_image_normalize True img = Inr (scaled img (Max (set (data img))))"
  using assms(2)
  by (simp add: show_image_normalize_def np_max_Max [OF assms(1)] normalize_by_scaled)

text \<open>
  C6. Both normalizations compute \<open>buffer / (m + 1e-15) * 255\<close>. In the mosaic path
  (\<open>grid_normalize\<close>, one image before it is placed) \<open>m\<close> is the maximum of the absolute
  values; in the single-image path (\<open>show_image_normalize\<close>, the whole buffer) \<open>m\<close> is
  the raw maximum. The two differ, for example on the one-sample image \<open>-1\<close>.
\<close>

theorem normalization_sites:
  "(data img \<noteq> [] \<longrightarrow>
      grid_normalize True img =
        Inr (img\<lparr>dtype := true_div_dtype (dtype img),
                  data := map (\<lambda>v. v / (Max (abs ` set (data img)) + eps) * 255) (data img)\<rparr>))
   \<and> (data img \<noteq> [] \<and> Max (set (data img)) + eps \<noteq> 0 \<longrightarrow>
      show_image_normalize True img =
        Inr (img\<lparr>dtype := true_div_dtype (dtype img),
                  data := map (\<lambda>v. v / (Max (set (data img)) + eps) * 255) (data img)\<rparr>))
   \<and> grid_normalize False img = Inr img
   \<and> show_image_normalize False img = Inr img
   \<and> grid_normalize True (float_image [1, 1] [- 1])
       \<noteq> show_image_normalize True (float_image [1, 1] [- 1])"
proof (intro conjI impI)
  assume "data img \<noteq> []"
  from grid_normalize_scaled [OF this]
  show "grid_normalize True img =
        Inr (img\<lparr>dtype := true_div_dtype (dtype img),
                  data := map (\<lambda>v. v / (Max (abs ` set (data img)) + eps) * 255) (data img)\<rparr>)"
    by (simp add: scaled_def)
next
  assume "data img \<noteq> [] \<and> Max (set (data img)) + eps \<noteq> 0"
  then have "show_image_normalize True img = Inr (scaled img (Max (set (data img))))"
    by (intro show_image_normalize_scaled) simp_all
  then show "show_image_normalize True img =
        Inr (img\<lparr>dtype := true_div_dtype (dtype img),
                  data := map (\<lambda>v. v / (Max (set (data img)) + eps) * 255) (data img)\<rparr>)"
    by (simp add: scaled_def)
next
  show "grid_normalize False img = Inr img" by (simp add: grid_normalize_def)
next
  show "show_image_normalize False img = Inr img" by (simp add: show_image_normalize_def)
next
  show "grid_normalize True (float_image [1, 1] [- 1])
       \<noteq> show_image_normalize True (float_image [1, 1] [- 1])"
    by (simp add: grid_normalize_def show_image_normalize_def np_max_def np_abs_def
        normalize_by_def arr_mul_def arr_div_def float_image_def eps_def)
qed

theorem normalization_sites_witness:
  "grid_normalize True (float_image [1, 2] [1, - 3])
     = Inr (float_image [1, 2] [1 / (3 + eps) * 255, - 3 / (3 + eps) * 255])
   \<and> show_image_normalize True (float_image [1, 2] [1, - 3])
     = Inr (float_image [1, 2] [1 / (1 + eps) * 255, - 3 / (1 + eps) * 255])"
proof -
  let ?img = "float_image [1, 2] [1, - 3]"
  have ne: "data ?img \<noteq> []" by (simp add: float_image_def)
  have m: "Max (set (data ?img)) = 1" and a: "Max (abs ` set (data ?img)) = 3"
    by (simp_all add: float_image_def)
  have nz: "Max (set (data ?img)) + eps \<noteq> 0" unfolding m using eps_pos by simp
  from normalization_sites [of ?img] ne nz
  have "grid_normalize True ?img =
        Inr (?img\<lparr>dtype := true_div_dtype (dtype ?img),
                  data := map (\<lambda>v. v / (Max (abs ` set (data ?img)) + eps) * 255) (data ?img)\<rparr>)"
    and "show_image_normalize True ?img =
        Inr (?img\<lparr>dtype := true_div_dtype (dtype ?img),
                  data := map (\<lambda>v. v / (Max (set (data ?img)) + eps) * 255) (data ?img)\<rparr>)"
    by blast+
  then show ?thesis
    unfolding m a by (simp add: float_image_def true_div_dtype_def is_float_def)
qed

lemma Max_abs_scaled:
  fixes xs :: "real list"
  assumes "xs \<noteq> []" "0 \<le> c"
  shows "Max (abs ` set (map (\<lambda>v. v * c) xs)) = Max (abs ` set xs) * c"
proof -
  have "abs ` set (map (\<lambda>v. v * c) xs) = (\<lambda>a. a * c) ` (abs ` set xs)"
    using assms(2) by (auto simp: image_image abs_mult)
  moreover have "mono (\<lambda>a::real. a * c)"
    using assms(2) by (intro monoI mult_right_mono)
  then have "(\<lambda>a. a * c) (Max (abs ` set xs)) = Max ((\<lambda>a. a * c) ` (abs ` set xs))"
    using assms(1) by (intro mono_Max_commute) auto
  ultimately show ?thesis by simp
qed

lemma Max_scaled:
  fixes xs :: "real list"
  assumes "xs \<noteq> []" "0 \<le> c"
  shows "Max (set (map (\<lambda>v. v * c) xs)) = Max (set xs) * c"
proof -
  have "mono (\<lambda>a::real. a * c)"
    using assms(2) by (intro monoI mult_right_mono)
  then have "(\<lambda>a. a * c) (Max (set xs)) = Max ((\<lambda>a. a * c) ` set xs)"
    using assms(1) by (intro mono_Max_commute) auto
  then show ?thesis by simp
qed

lemma data_scaled: "data (scaled img m) = map (\<lambda>v. v * (255 / (m + eps))) (data img)"
  by (simp add: scaled_def)

lemma near_255:
  fixes M :: real
  assumes "0 < M"
  shows "255 * M / (M + eps) \<le> 255"
    "255 * (1 - eps / M - 1 / 10 ^ 6) \<le> 255 * M / (M + eps)"
proof -
  have d: "0 < M + eps" using assms eps_pos by linarith
  show "255 * M / (M + eps) \<le> 255"
    using d eps_pos by (simp add: pos_divide_le_eq)
  have "1 - eps / M \<le> M / (M + eps)"
  proof -
    have "eps / (M + eps) \<le> eps / M"
      using assms eps_pos by (intro divide_left_mono) (simp_all add: less_imp_le)
    moreover have "M / (M + eps) = 1 - eps / (M + eps)"
      using d by (simp add: field_simps)
    ultimately show ?thesis by linarith
  qed
  then have "1 - eps / M - 1 / 10 ^ 6 \<le> M / (M + eps)" by simp
  then have "255 * (1 - eps / M - 1 / 10 ^ 6) \<le> 255 * (M / (M + eps))"
    by (intro mult_left_mono) simp_all
  then show "255 * (1 - eps / M - 1 / 10 ^ 6) \<le> 255 * M / (M + eps)" by simp
qed

lemma grid_normalize_max_abs:
  assumes ne: "data img \<noteq> []" and pos: "0 < Max (abs ` set (data img))"
  shows "\<exists>out. grid_normalize True img = Inr out
           \<and> Max (abs ` set (data out))
               = 255 * Max (abs ` set (data img)) / (Max (abs ` set (data img)) + eps)"
proof -
  let ?M = "Max (abs ` set (data img))"
  let ?out = "scaled img ?M"
  have d: "0 < ?M + eps" using pos eps_pos by linarith
  have "Max (abs ` set (data ?out)) = ?M * (255 / (?M + eps))"
    unfolding data_scaled by (rule Max_abs_scaled [OF ne]) (use d in simp)
  then have "Max (abs ` set (data ?out)) = 255 * ?M / (?M + eps)" by simp
  with grid_normalize_scaled [OF ne] show ?thesis by simp
qed

lemma show_image_normalize_max_abs:
  assumes ne: "data img \<noteq> []" and pos: "0 < Max (abs ` set (data img))"
    and raw: "Max (set (data img)) = Max (abs ` set (data img))"
  shows "\<exists>out. show_image_normalize True img = Inr out
           \<and> Max (abs ` set (data out))
               = 255 * Max (abs ` set (data img)) / (Max (abs ` set (data img)) + eps)"
proof -
  let ?M = "Max (abs ` set (data img))"
  let ?out = "scaled img ?M"
  have d: "0 < ?M + eps" using pos eps_pos by linarith
  then have nz: "Max (set (data img)) + eps \<noteq> 0" using raw by simp
  have "Max (abs ` set (data ?out)) = ?M * (255 / (?M + eps))"
    unfolding data_scaled by (rule Max_abs_scaled [OF ne]) (use d in simp)
  then have "Max (abs ` set (data ?out)) = 255 * ?M / (?M + eps)" by simp
  with show_image_normalize_scaled [OF ne nz] raw show ?thesis by simp
qed

lemma normalize_all_zero:
  assumes ne: "data img \<noteq> []" and z: "\<forall>v \<in> set (data img). v = 0"
  shows "grid_normalize True img
           = Inr (img\<lparr>dtype := true_div_dtype (dtype img), data := map (\<lambda>v. 0) (data img)\<rparr>)
       \<and> show_image_normalize True img
           = Inr (img\<lparr>dtype := true_div_dtype (dtype img), data := map (\<lambda>v. 0) (data img)\<rparr>)"
proof -
  have s: "set (data img) = {0}" using ne z by (cases "data img") auto
  have nz: "Max (set (data img)) + eps \<noteq> 0" using eps_pos by (simp add: s)
  have "map (\<lambda>v. v / (m + eps) * 255) (data img) = map (\<lambda>v. 0) (data img)" for m
    using z by (intro map_cong) simp_all
  then have "scaled img m
          = img\<lparr>dtype := true_div_dtype (dtype img), data := map (\<lambda>v. 0) (data img)\<rparr>" for m
    by (simp add: scaled_def)
  with grid_normalize_scaled [OF ne] show_image_normalize_scaled [OF ne nz]
  show ?thesis by simp
qed

text \<open>
  C7, as claimed: an all-zero image is normalized to zeros, and for every image that is
  not all zero the maximum absolute value of the normalized image is about 255. The
  second half fails. In the mosaic path the one-sample image \<open>1e-15\<close> is normalized to
  \<open>127.5\<close>; in the single-image path, which divides by the raw maximum, the image
  \<open>[1, -3]\<close> gets the maximum absolute value \<open>765 / (1 + 1e-15)\<close>.
\<close>

theorem normalization_not_always_255:
  "grid_normalize True (float_image [1, 1] [eps]) = Inr (float_image [1, 1] [255 / 2])
   \<and> np_max (np_abs (float_image [1, 1] [255 / 2])) = Inr (255 / 2)
   \<and> show_image_normalize True (float_image [1, 2] [1, - 3])
       = Inr (float_image [1, 2] [1 / (1 + eps) * 255, - 3 / (1 + eps) * 255])
   \<and> np_max (np_abs (float_image [1, 2] [1 / (1 + eps) * 255, - 3 / (1 + eps) * 255]))
       = Inr (765 / (1 + eps))
   \<and> 764 < 765 / (1 + eps)"
  by (simp add: grid_normalize_def show_image_normalize_def np_max_def np_abs_def
      normalize_by_def arr_mul_def arr_div_def float_image_def eps_def true_div_dtype_def
      is_float_def)

text \<open>
  C7, amended. For every non-empty all-zero image both normalizations return all zeros.
  For a non-empty image whose maximum absolute value \<open>M\<close> is positive, the mosaic
  normalization gives a maximum absolute value that is at most 255 and at least
  \<open>255 * (1 - 1e-15 / M - 1e-6)\<close>: it is about 255 when \<open>M\<close> is large against \<open>1e-15\<close>.
  The normalization of \<open>show_image\<close> gives the same two bounds when, in addition, the raw
  maximum of the image equals \<open>M\<close>.
\<close>

theorem normalization_bounds:
  "(data img \<noteq> [] \<and> (\<forall>v \<in> set (data img). v = 0) \<longrightarrow>
      grid_normalize True img
        = Inr (img\<lparr>dtype := true_div_dtype (dtype img), data := map (\<lambda>v. 0) (data img)\<rparr>)
      \<and> show_image_normalize True img
        = Inr (img\<lparr>dtype := true_div_dtype (dtype img), data := map (\<lambda>v. 0) (data img)\<rparr>))
   \<and> (data img \<noteq> [] \<and> 0 < Max (abs ` set (data img)) \<longrightarrow>
      (\<exists>out. grid_normalize True img = Inr out
           \<and> Max (abs ` set (data out)) \<le> 255
           \<and> 255 * (1 - eps / Max (abs ` set (data img)) - 1 / 10 ^ 6)
               \<le> Max (abs ` set (data out))))
   \<and> (data img \<noteq> [] \<and> 0 < Max (abs ` set (data img))
        \<and> Max (set (data img)) = Max (abs ` set (data img)) \<longrightarrow>
      (\<exists>out. show_image_normalize True img = Inr out
           \<and> Max (abs ` set (data out)) \<le> 255
           \<and> 255 * (1 - eps / Max (abs ` set (data img)) - 1 / 10 ^ 6)
               \<le> Max (abs ` set (data out))))"
proof (intro conjI impI)
  assume "data img \<noteq> [] \<and> (\<forall>v \<in> set (data img). v = 0)"
  then show "grid_normalize True img
        = Inr (img\<lparr>dtype := true_div_dtype (dtype img), data := map (\<lambda>v. 0) (data img)\<rparr>)"
    and "show_image_normalize True img
        = Inr (img\<lparr>dtype := true_div_dtype (dtype img), data := map (\<lambda>v. 0) (data img)\<rparr>)"
    using normalize_all_zero [of img] by simp_all
next
  assume a: "data img \<noteq> [] \<and> 0 < Max (abs ` set (data img))"
  then obtain out where
    "grid_normalize True img = Inr out"
    "Max (abs ` set (data out))
       = 255 * Max (abs ` set (data img)) / (Max (abs ` set (data img)) + eps)"
    using grid_normalize_max_abs [of img] by blast
  with near_255 [of "Max (abs ` set (data img))"] a
  show "\<exists>out. grid_normalize True img = Inr out
           \<and> Max (abs ` set (data out)) \<le> 255
           \<and> 255 * (1 - eps / Max (abs ` set (data img)) - 1 / 10 ^ 6)
               \<le> Max (abs ` set (data out))"
    by (intro exI [of _ out]) simp
next
  assume a: "data img \<noteq> [] \<and> 0 < Max (abs ` set (data img))
        \<and> Max (set (data img)) = Max (abs ` set (data img))"
  then obtain out where
    "show_image_normalize True img = Inr out"
    "Max (abs ` set (data out))
       = 255 * Max (abs ` set (data img)) / (Max (abs ` set (data img)) + eps)"
    using show_image_normalize_max_abs [of img] by blast
  with near_255 [of "Max (abs ` set (data img))"] a
  show "\<exists>out. show_image_normalize True img = Inr out
           \<and> Max (abs ` set (data out)) \<le> 255
           \<and> 255 * (1 - eps / Max (abs ` set (data img)) - 1 / 10 ^ 6)
               \<le> Max (abs ` set (data out))"
    by (intro exI [of _ out]) simp
qed

theorem normalization_bounds_witness:
  "(\<exists>out. grid_normalize True (float_image [1, 2] [1, - 3]) = Inr out
       \<and> Max (abs ` set (data out)) \<le> 255 \<and> 254 \<le> Max (abs ` set (data out)))
   \<and> grid_normalize True (float_image [1, 2] [0, 0]) = Inr (float_image [1, 2] [0, 0])
   \<and> show_image_normalize True (float_image [1, 2] [0, 0]) = Inr (float_image [1, 2] [0, 0])
   \<and> (\<exists>out. show_image_normalize True (float_image [1, 2] [3, - 1]) = Inr out
       \<and> Max (abs ` set (data out)) \<le> 255 \<and> 254 \<le> Max (abs ` set (data out)))"
proof -
  let ?a = "float_image [1, 2] [1, - 3]" and ?b = "float_image [1, 2] [3, - 1]"
    and ?z = "float_image [1, 2] [0, 0]"
  have ne: "data ?a \<noteq> []" "data ?b \<noteq> []" "data ?z \<noteq> []" by (simp_all add: float_image_def)
  have Ma: "Max (abs ` set (data ?a)) = 3" and Mb: "Max (abs ` set (data ?b)) = 3"
    and mb: "Max (set (data ?b)) = 3"
    by (simp_all add: float_image_def)
  have zz: "\<forall>v \<in> set (data ?z). v = 0" by (simp add: float_image_def)
  have low: "(254::real) \<le> 255 * (1 - eps / 3 - 1 / 10 ^ 6)" by (simp add: eps_def)
  from normalization_bounds [of ?a] ne(1) obtain out where
    "grid_normalize True ?a = Inr out" "Max (abs ` set (data out)) \<le> 255"
    "255 * (1 - eps / 3 - 1 / 10 ^ 6) \<le> Max (abs ` set (data out))"
    unfolding Ma by auto
  with low have A: "\<exists>out. grid_normalize True ?a = Inr out
       \<and> Max (abs ` set (data out)) \<le> 255 \<and> 254 \<le> Max (abs ` set (data out))"
    by (intro exI [of _ out]) simp
  from normalization_bounds [of ?b] ne(2) obtain out' where
    "show_image_normalize True ?b = Inr out'" "Max (abs ` set (data out')) \<le> 255"
    "255 * (1 - eps / 3 - 1 / 10 ^ 6) \<le> Max (abs ` set (data out'))"
    unfolding Mb mb by auto
  with low have B: "\<exists>out. show_image_normalize True ?b = Inr out
       \<and> Max (abs ` set (data out)) \<le> 255 \<and> 254 \<le> Max (abs ` set (data out))"
    by (intro exI [of _ out']) simp
  from normalization_bounds [of ?z] ne(3) zz
  have "grid_normalize True ?z
        = Inr (?z\<lparr>dtype := true_div_dtype (dtype ?z), data := map (\<lambda>v. 0) (data ?z)\<rparr>)"
    and "show_image_normalize True ?z
        = Inr (?z\<lparr>dtype := true_div_dtype (dtype ?z), data := map (\<lambda>v. 0) (data ?z)\<rparr>)"
    by blast+
  then have C: "grid_normalize True ?z = Inr ?z" "show_image_normalize True ?z = Inr ?z"
    by (simp_all add: float_image_def true_div_dtype_def is_float_def)
  from A B C show ?thesis by blast
qed

section \<open>Assignment to a slice and the frame of one placement\<close>

lemma clip_index_le: "clip_index i L \<le> L"
  by (auto simp: clip_index_def max_def)

lemma py_slice_within:
  assumes sl: "py_slice a b L = (lo, hi)" and a0: "0 \<le> a"
    and b0: "0 \<le> b \<or> int L \<le> a"
    and i: "lo \<le> i" "i < hi"
  shows "a \<le> int i \<and> int i < b"
proof -
  have lo: "lo = min (nat a) L" and hi: "hi = max lo (clip_index b L)"
    using sl a0 by (auto simp: py_slice_def Let_def clip_index_def)
  have lt: "i < clip_index b L" using i hi by (simp add: max_def split: if_splits)
  have "i < L" using lt clip_index_le [of b L] by linarith
  then have aL: "nat a \<le> i" using i(1) lo by (simp add: min_def split: if_splits)
  then have A: "a \<le> int i" by linarith
  have "\<not> int L \<le> a" using aL \<open>i < L\<close> by linarith
  with b0 have "0 \<le> b" by simp
  then have "i < nat b" using lt by (simp add: clip_index_def)
  then have "int i < b" by linarith
  with A show ?thesis by simp
qed

lemma flat_div_mod:
  fixes i j W :: nat
  assumes "j < W"
  shows "(i * W + j) div W = i" "(i * W + j) mod W = j"
  using assms by simp_all

lemma setitem2_frame:
  assumes set: "setitem2 grid slice_h slice_w v = Inr grid'"
    and sh: "shape grid = [H, W]" and len: "length (data grid) = H * W"
    and rs: "py_slice (fst slice_h) (snd slice_h) H = (r0, r1)"
    and cs: "py_slice (fst slice_w) (snd slice_w) W = (c0, c1)"
  shows "shape grid' = [H, W]" "length (data grid') = H * W"
    "\<And>i j. i < H \<Longrightarrow> j < W \<Longrightarrow> \<not> (r0 \<le> i \<and> i < r1 \<and> c0 \<le> j \<and> j < c1)
       \<Longrightarrow> at2 grid' i j = at2 grid i j"
proof -
  from set obtain f where
    g': "grid' = grid\<lparr>data :=
               map (\<lambda>k. let i = k div W; j = k mod W
                        in if r0 \<le> i \<and> i < r1 \<and> c0 \<le> j \<and> j < c1
                           then f (i - r0) (j - c0) else data grid ! k)
                   [0..<H * W]\<rparr>"
    using sh rs cs by (auto simp: setitem2_def Let_def split: option.splits)
  show "shape grid' = [H, W]" using g' sh by simp
  show "length (data grid') = H * W" using g' by simp
  fix i j assume ij: "i < H" "j < W" and out: "\<not> (r0 \<le> i \<and> i < r1 \<and> c0 \<le> j \<and> j < c1)"
  have k: "i * W + j < H * W" by (rule flat_index_less [OF ij])
  have "data grid' ! (i * W + j) = data grid ! (i * W + j)"
    using k out flat_div_mod [OF ij(2), of i] by (auto simp: g' Let_def simp del: upt_Suc)
  then show "at2 grid' i j = at2 grid i j"
    using sh g' by (simp add: at2_def)
qed

lemma cell_slice_ok:
  fixes p nh rows :: int and r :: nat
  assumes p: "0 \<le> p" and r: "int r < rows" and L: "0 \<le> rows * nh + (rows + 1) * p"
  shows "0 \<le> base_of p nh r"
    and "0 \<le> base_of p nh r + nh \<or> rows * nh + (rows + 1) * p \<le> base_of p nh r"
proof -
  let ?s = "p + nh"
  have b: "base_of p nh r = p + int r * ?s" by (simp add: base_of_def algebra_simps)
  have bn: "base_of p nh r + nh = (int r + 1) * ?s" by (simp add: base_of_def algebra_simps)
  have Ls: "rows * nh + (rows + 1) * p = rows * ?s + p" by (simp add: algebra_simps)
  show "0 \<le> base_of p nh r"
  proof (cases "0 \<le> ?s")
    case True
    then have "0 \<le> int r * ?s" by simp
    with p b show ?thesis by linarith
  next
    case False
    then have "(rows - 1) * ?s \<le> int r * ?s"
      using r by (intro mult_right_mono_neg) simp_all
    then have "rows * ?s - ?s \<le> int r * ?s" by (simp add: algebra_simps)
    with L Ls b False show ?thesis by linarith
  qed
  show "0 \<le> base_of p nh r + nh \<or> rows * nh + (rows + 1) * p \<le> base_of p nh r"
  proof (cases "0 \<le> ?s")
    case True
    then have "0 \<le> (int r + 1) * ?s" by simp
    with bn show ?thesis by simp
  next
    case False
    then have "(rows - 1) * ?s \<le> int r * ?s"
      using r by (intro mult_right_mono_neg) simp_all
    then have "rows * ?s - ?s \<le> int r * ?s" by (simp add: algebra_simps)
    with Ls b False show ?thesis by linarith
  qed
qed

lemma place_image_frame:
  assumes pl: "place_image cv images padding resize_to_fit normalize' n_cols g grid (row, col)
                 = Inr grid'"
    and sh: "shape grid = [nat Lh, nat Lw]" and len: "length (data grid) = nat Lh * nat Lw"
    and Lh: "Lh = n_rows * new_height g + (n_rows + 1) * padding" "0 \<le> Lh"
    and Lw: "Lw = n_cols * new_width g + (n_cols + 1) * padding" "0 \<le> Lw"
    and p: "0 \<le> padding" and rc: "int row < n_rows" "int col < n_cols"
  shows "shape grid' = [nat Lh, nat Lw]" "length (data grid') = nat Lh * nat Lw"
    "\<And>i j. i < nat Lh \<Longrightarrow> j < nat Lw \<Longrightarrow>
       \<not> (int row * n_cols + int col < int (shape images ! 0) \<and> in_cell padding g row col i j)
       \<Longrightarrow> at2 grid' i j = at2 grid i j"
proof -
  let ?n = "int row * n_cols + int col"
  let ?bh = "base_of padding (new_height g) row" and ?bw = "base_of padding (new_width g) col"
  have all: "shape grid' = [nat Lh, nat Lw] \<and> length (data grid') = nat Lh * nat Lw
      \<and> (\<forall>i j. i < nat Lh \<longrightarrow> j < nat Lw \<longrightarrow>
            \<not> (?n < int (shape images ! 0) \<and> in_cell padding g row col i j)
            \<longrightarrow> at2 grid' i j = at2 grid i j)"
  proof (cases "int (shape images ! 0) \<le> ?n")
    case True
    then have "grid' = grid" using pl by (simp add: place_image_def Let_def)
    then show ?thesis using sh len by simp
  next
    case False
    then obtain v where
      st: "setitem2 grid (?bh, ?bh + new_height g) (?bw, ?bw + new_width g) v = Inr grid'"
      using pl by (auto simp: place_image_def Let_def and_then_Inr_iff)
    obtain r0 r1 where rs: "py_slice ?bh (?bh + new_height g) (nat Lh) = (r0, r1)"
      by (cases "py_slice ?bh (?bh + new_height g) (nat Lh)") auto
    obtain c0 c1 where cs: "py_slice ?bw (?bw + new_width g) (nat Lw) = (c0, c1)"
      by (cases "py_slice ?bw (?bw + new_width g) (nat Lw)") auto
    have rs': "py_slice (fst (?bh, ?bh + new_height g)) (snd (?bh, ?bh + new_height g)) (nat Lh)
                 = (r0, r1)" using rs by simp
    have cs': "py_slice (fst (?bw, ?bw + new_width g)) (snd (?bw, ?bw + new_width g)) (nat Lw)
                 = (c0, c1)" using cs by simp
    note fr = setitem2_frame [OF st sh len rs' cs']
    have inside: "in_cell padding g row col i j"
      if "r0 \<le> i" "i < r1" "c0 \<le> j" "j < c1" for i j
    proof -
      have h0: "0 \<le> ?bh"
        and h1: "0 \<le> ?bh + new_height g \<or> int (nat Lh) \<le> ?bh"
        using cell_slice_ok [OF p rc(1), of "new_height g"] Lh by simp_all
      have w0: "0 \<le> ?bw"
        and w1: "0 \<le> ?bw + new_width g \<or> int (nat Lw) \<le> ?bw"
        using cell_slice_ok [OF p rc(2), of "new_width g"] Lw by simp_all
      from py_slice_within [OF rs h0 h1 that(1,2)] py_slice_within [OF cs w0 w1 that(3,4)]
      show ?thesis by (simp add: in_cell_def)
    qed
    show ?thesis
    proof (intro conjI allI impI)
      show "shape grid' = [nat Lh, nat Lw]" by (rule fr(1))
      show "length (data grid') = nat Lh * nat Lw" by (rule fr(2))
      fix i j assume ij: "i < nat Lh" "j < nat Lw"
        and out: "\<not> (?n < int (shape images ! 0) \<and> in_cell padding g row col i j)"
      from out False have "\<not> in_cell padding g row col i j" by simp
      with inside have "\<not> (r0 \<le> i \<and> i < r1 \<and> c0 \<le> j \<and> j < c1)" by blast
      from fr(3) [OF ij this] show "at2 grid' i j = at2 grid i j" .
    qed
  qed
  from all show "shape grid' = [nat Lh, nat Lw]" by simp
  from all show "length (data grid') = nat Lh * nat Lw" by simp
  fix i j assume "i < nat Lh" "j < nat Lw"
    "\<not> (?n < int (shape images ! 0) \<and> in_cell padding g row col i j)"
  with all show "at2 grid' i j = at2 grid i j" by blast
qed

lemma for_each_frame:
  assumes fe: "for_each (place_image cv images padding resize_to_fit normalize' n_cols g)
                 cells grid = Inr grid'"
    and sh: "shape grid = [nat Lh, nat Lw]" and len: "length (data grid) = nat Lh * nat Lw"
    and Lh: "Lh = n_rows * new_height g + (n_rows + 1) * padding" "0 \<le> Lh"
    and Lw: "Lw = n_cols * new_width g + (n_cols + 1) * padding" "0 \<le> Lw"
    and p: "0 \<le> padding"
    and cells: "\<forall>c \<in> set cells. int (fst c) < n_rows \<and> int (snd c) < n_cols"
  shows "shape grid' = [nat Lh, nat Lw] \<and> length (data grid') = nat Lh * nat Lw
      \<and> (\<forall>i j. i < nat Lh \<longrightarrow> j < nat Lw \<longrightarrow>
            (\<forall>c \<in> set cells. \<not> (int (fst c) * n_cols + int (snd c) < int (shape images ! 0)
                                  \<and> in_cell padding g (fst c) (snd c) i j))
            \<longrightarrow> at2 grid' i j = at2 grid i j)"
  using fe sh len cells
proof (induction cells arbitrary: grid)
  case Nil
  then show ?case by simp
next
  case (Cons c cells)
  obtain row col where c: "c = (row, col)" by (cases c) auto
  from Cons.prems(1) obtain mid where
    pl: "place_image cv images padding resize_to_fit normalize' n_cols g grid (row, col) = Inr mid"
    and rest: "for_each (place_image cv images padding resize_to_fit normalize' n_cols g)
                 cells mid = Inr grid'"
    by (auto simp: c split: sum.splits)
  have rc: "int row < n_rows" "int col < n_cols" using Cons.prems(4) c by simp_all
  note fr = place_image_frame [OF pl Cons.prems(2,3) Lh Lw p rc]
  have cells': "\<forall>c \<in> set cells. int (fst c) < n_rows \<and> int (snd c) < n_cols"
    using Cons.prems(4) by simp
  from Cons.IH [OF rest fr(1,2) cells'] have
    s: "shape grid' = [nat Lh, nat Lw]" and l: "length (data grid') = nat Lh * nat Lw"
    and f: "\<And>i j. i < nat Lh \<Longrightarrow> j < nat Lw \<Longrightarrow>
            (\<forall>c \<in> set cells. \<not> (int (fst c) * n_cols + int (snd c) < int (shape images ! 0)
                                  \<and> in_cell padding g (fst c) (snd c) i j))
            \<Longrightarrow> at2 grid' i j = at2 mid i j"
    by blast+
  show ?case
  proof (intro conjI allI impI)
    show "shape grid' = [nat Lh, nat Lw]" by (rule s)
    show "length (data grid') = nat Lh * nat Lw" by (rule l)
    fix i j assume ij: "i < nat Lh" "j < nat Lw"
      and out: "\<forall>c \<in> set (c # cells).
                  \<not> (int (fst c) * n_cols + int (snd c) < int (shape images ! 0)
                     \<and> in_cell padding g (fst c) (snd c) i j)"
    from out have o1: "\<not> (int row * n_cols + int col < int (shape images ! 0)
                         \<and> in_cell padding g row col i j)"
      by (simp add: c)
    from out have o2: "\<forall>c \<in> set cells.
                  \<not> (int (fst c) * n_cols + int (snd c) < int (shape images ! 0)
                     \<and> in_cell padding g (fst c) (snd c) i j)"
      by simp
    have "at2 grid' i j = at2 mid i j" by (rule f [OF ij o2])
    also have "\<dots> = at2 grid i j" by (rule fr(3) [OF ij o1])
    finally show "at2 grid' i j = at2 grid i j" .
  qed
qed

lemma np_ones_times_Inr:
  assumes "np_ones_times h w c = Inr grid"
  shows "0 \<le> h" "0 \<le> w" "shape grid = [nat h, nat w]"
    "length (data grid) = nat h * nat w"
    "\<And>i j. i < nat h \<Longrightarrow> j < nat w \<Longrightarrow> at2 grid i j = c"
proof -
  from assms have hw: "0 \<le> h \<and> 0 \<le> w"
    and g: "grid = \<lparr>dtype = Float64, shape = [nat h, nat w],
                    data = replicate (nat h * nat w) c\<rparr>"
    by (auto simp: np_ones_times_def split: if_splits)
  from hw show "0 \<le> h" "0 \<le> w" by simp_all
  show "shape grid = [nat h, nat w]" "length (data grid) = nat h * nat w"
    by (simp_all add: g)
  fix i j assume "i < nat h" "j < nat w"
  from flat_index_less [OF this] show "at2 grid i j = c"
    by (simp add: g at2_def)
qed

lemma build_grid_image_Inr:
  assumes "build_grid_image cv images0 padding resize_to_fit normalize' = Inr grid"
  shows "\<exists>N H W n_rows n_cols g grid0.
           shape images0 = [N, H, W, 1]
         \<and> best_grid (int N) = Inr (n_rows, n_cols)
         \<and> grid_geometry padding resize_to_fit n_rows n_cols H W = Inr g
         \<and> np_ones_times (n_rows * new_height g + total_row_padding g)
              (n_cols * new_width g + total_col_padding g) DEFAULT_BACKGROUND_COLOR = Inr grid0
         \<and> for_each (place_image cv (images0\<lparr>shape := [N, H, W]\<rparr>) padding resize_to_fit
                       normalize' n_cols g)
              (List.product [0..<nat n_rows] [0..<nat n_cols]) grid0 = Inr grid"
proof -
  have nd: "ndim images0 = 3 \<or> ndim images0 = 4"
    using assms by (auto simp: build_grid_image_def split: if_splits)
  have "ndim images0 \<noteq> 3"
    using build_grid_image_3d_fails [of images0 cv padding resize_to_fit normalize'] assms
    by auto
  with nd have "ndim images0 = 4" by simp
  then obtain N H W C where sh: "shape images0 = [N, H, W, C]"
    by (auto simp: ndim_def length_Suc_conv numeral_eq_Suc)
  have C: "C = 1"
    using assms sh by (auto simp: build_grid_image_def ndim_def squeeze_last_def split: if_splits)
  have sq: "squeeze_last images0 = Inr (images0\<lparr>shape := [N, H, W]\<rparr>)"
    using sh C by (simp add: squeeze_last_def)
  from assms obtain n_rows n_cols where
    bg: "best_grid (int N) = Inr (n_rows, n_cols)"
    using sh sq
    by (cases "best_grid (int N)") (auto simp: build_grid_image_def ndim_def)
  from assms obtain g where
    geo: "grid_geometry padding resize_to_fit n_rows n_cols H W = Inr g"
    using sh sq bg
    by (cases "grid_geometry padding resize_to_fit n_rows n_cols H W")
       (auto simp: build_grid_image_def ndim_def)
  from assms obtain grid0 where
    ones: "np_ones_times (n_rows * new_height g + total_row_padding g)
              (n_cols * new_width g + total_col_padding g) DEFAULT_BACKGROUND_COLOR = Inr grid0"
    using sh sq bg geo
    by (cases "np_ones_times (n_rows * new_height g + total_row_padding g)
              (n_cols * new_width g + total_col_padding g) DEFAULT_BACKGROUND_COLOR")
       (auto simp: build_grid_image_def ndim_def)
  have "for_each (place_image cv (images0\<lparr>shape := [N, H, W]\<rparr>) padding resize_to_fit
                       normalize' n_cols g)
              (List.product [0..<nat n_rows] [0..<nat n_cols]) grid0 = Inr grid"
    using assms sh sq bg geo ones by (simp add: build_grid_image_def ndim_def)
  with sh C bg geo ones show ?thesis by blast
qed

lemma grid_geometry_Inr:
  assumes "grid_geometry padding resize_to_fit n_rows n_cols H W = Inr g"
  shows "n_rows * int H \<noteq> 0"
    "total_row_padding g = (n_rows + 1) * padding"
    "total_col_padding g = (n_cols + 1) * padding"
    "height_scaling g
       = float64 (real_of_int (DESIRED_HEIGHT - (n_rows + 1) * padding)
                  / real_of_int (n_rows * int H))"
    "width_scaling g = height_scaling g"
    "new_height g
       = (if resize_to_fit then py_round (float64 (height_scaling g * float64 (real H)))
          else int H)"
    "new_width g
       = (if resize_to_fit then py_round (float64 (width_scaling g * float64 (real W)))
          else int W)"
  using assms by (auto simp: grid_geometry_def Let_def split: if_splits)

lemma cell_fits:
  fixes p nh rows :: int and r :: nat
  assumes p: "0 \<le> p" and nh: "0 \<le> nh" and r: "int r < rows"
  shows "0 \<le> base_of p nh r" "base_of p nh r + nh \<le> rows * nh + (rows + 1) * p"
proof -
  have bn: "base_of p nh r + nh = (int r + 1) * (p + nh)" by (simp add: base_of_def algebra_simps)
  show "0 \<le> base_of p nh r" using p nh by (simp add: base_of_def)
  have "(int r + 1) * (p + nh) \<le> rows * (p + nh)"
    using r p nh by (intro mult_right_mono) simp_all
  also have "\<dots> \<le> rows * nh + (rows + 1) * p" using p by (simp add: algebra_simps)
  finally show "base_of p nh r + nh \<le> rows * nh + (rows + 1) * p" using bn by simp
qed

lemma cells_apart:
  fixes p nh :: int and r r' :: nat
  assumes p: "0 \<le> p" and nh: "0 \<le> nh" and lt: "r < r'"
  shows "base_of p nh r + nh \<le> base_of p nh r'"
proof -
  have "(int r + 1) * (p + nh) \<le> int r' * (p + nh)"
    using lt p nh by (intro mult_right_mono) simp_all
  also have "\<dots> \<le> base_of p nh r'" using p by (simp add: base_of_def algebra_simps)
  finally show ?thesis by (simp add: base_of_def algebra_simps)
qed

lemma in_cell_same:
  assumes p: "0 \<le> padding"
    and a: "in_cell padding g row col i j" and b: "in_cell padding g row' col' i j"
  shows "row = row' \<and> col = col'"
proof -
  have nh: "0 \<le> new_height g" and nw: "0 \<le> new_width g"
    using a by (simp_all add: in_cell_def)
  have "row = row'"
  proof (rule ccontr)
    assume "row \<noteq> row'"
    then consider "row < row'" | "row' < row" by linarith
    then show False
    proof cases
      case 1
      from cells_apart [OF p nh 1] a b show False by (simp add: in_cell_def)
    next
      case 2
      from cells_apart [OF p nh 2] a b show False by (simp add: in_cell_def)
    qed
  qed
  moreover have "col = col'"
  proof (rule ccontr)
    assume "col \<noteq> col'"
    then consider "col < col'" | "col' < col" by linarith
    then show False
    proof cases
      case 1
      from cells_apart [OF p nw 1] a b show False by (simp add: in_cell_def)
    next
      case 2
      from cells_apart [OF p nw 2] a b show False by (simp add: in_cell_def)
    qed
  qed
  ultimately show ?thesis by simp
qed

lemma in_cell_in_canvas:
  assumes p: "0 \<le> padding" and rc: "int row < n_rows" "int col < n_cols"
    and a: "in_cell padding g row col i j"
  shows "i < nat (n_rows * new_height g + (n_rows + 1) * padding)"
    "j < nat (n_cols * new_width g + (n_cols + 1) * padding)"
proof -
  have nh: "0 \<le> new_height g" and nw: "0 \<le> new_width g"
    using a by (simp_all add: in_cell_def)
  from cell_fits(2) [OF p nh rc(1)] a
  show "i < nat (n_rows * new_height g + (n_rows + 1) * padding)"
    unfolding in_cell_def by linarith
  from cell_fits(2) [OF p nw rc(2)] a
  show "j < nat (n_cols * new_width g + (n_cols + 1) * padding)"
    unfolding in_cell_def by linarith
qed

lemma set_product_upt:
  "c \<in> set (List.product [0..<nat n_rows] [0..<nat n_cols])
     \<longleftrightarrow> int (fst c) < n_rows \<and> int (snd c) < n_cols"
  by (cases c) auto

lemma background_outside_placed:
  assumes b: "build_grid_image cv images padding resize_to_fit normalize' = Inr grid"
    and p: "0 \<le> padding"
  shows "\<exists>n_rows n_cols g.
           best_grid (int (shape images ! 0)) = Inr (n_rows, n_cols)
         \<and> grid_geometry padding resize_to_fit n_rows n_cols (shape images ! 1) (shape images ! 2)
             = Inr g
         \<and> shape grid = [nat (n_rows * new_height g + (n_rows + 1) * padding),
                         nat (n_cols * new_width g + (n_cols + 1) * padding)]
         \<and> (\<forall>i j. i < shape grid ! 0 \<longrightarrow> j < shape grid ! 1 \<longrightarrow>
               (\<forall>row col. int row < n_rows \<longrightarrow> int col < n_cols \<longrightarrow>
                  int row * n_cols + int col < int (shape images ! 0) \<longrightarrow>
                  \<not> in_cell padding g row col i j)
               \<longrightarrow> at2 grid i j = DEFAULT_BACKGROUND_COLOR)"
proof -
  from build_grid_image_Inr [OF b] obtain N H W n_rows n_cols g grid0 where
    sh: "shape images = [N, H, W, 1]"
    and bg: "best_grid (int N) = Inr (n_rows, n_cols)"
    and geo: "grid_geometry padding resize_to_fit n_rows n_cols H W = Inr g"
    and ones: "np_ones_times (n_rows * new_height g + total_row_padding g)
              (n_cols * new_width g + total_col_padding g) DEFAULT_BACKGROUND_COLOR = Inr grid0"
    and fe: "for_each (place_image cv (images\<lparr>shape := [N, H, W]\<rparr>) padding resize_to_fit
                       normalize' n_cols g)
              (List.product [0..<nat n_rows] [0..<nat n_cols]) grid0 = Inr grid"
    by blast
  let ?Lh = "n_rows * new_height g + (n_rows + 1) * padding"
  let ?Lw = "n_cols * new_width g + (n_cols + 1) * padding"
  note gg = grid_geometry_Inr [OF geo]
  have ones': "np_ones_times ?Lh ?Lw DEFAULT_BACKGROUND_COLOR = Inr grid0"
    using ones gg(2,3) by simp
  note o = np_ones_times_Inr [OF ones']
  have cells: "\<forall>c \<in> set (List.product [0..<nat n_rows] [0..<nat n_cols]).
                 int (fst c) < n_rows \<and> int (snd c) < n_cols"
    using set_product_upt by blast
  from for_each_frame [OF fe o(3,4) refl o(1) refl o(2) p cells] have
    s: "shape grid = [nat ?Lh, nat ?Lw]"
    and f: "\<And>i j. i < nat ?Lh \<Longrightarrow> j < nat ?Lw \<Longrightarrow>
            (\<forall>c \<in> set (List.product [0..<nat n_rows] [0..<nat n_cols]).
               \<not> (int (fst c) * n_cols + int (snd c)
                     < int (shape (images\<lparr>shape := [N, H, W]\<rparr>) ! 0)
                  \<and> in_cell padding g (fst c) (snd c) i j))
            \<Longrightarrow> at2 grid i j = at2 grid0 i j"
    by blast+
  have bgc: "at2 grid i j = DEFAULT_BACKGROUND_COLOR"
    if ij: "i < shape grid ! 0" "j < shape grid ! 1"
      and out: "\<forall>row col. int row < n_rows \<longrightarrow> int col < n_cols \<longrightarrow>
                  int row * n_cols + int col < int (shape images ! 0) \<longrightarrow>
                  \<not> in_cell padding g row col i j" for i j
  proof -
    have ij': "i < nat ?Lh" "j < nat ?Lw" using ij s by simp_all
    have "\<forall>c \<in> set (List.product [0..<nat n_rows] [0..<nat n_cols]).
               \<not> (int (fst c) * n_cols + int (snd c)
                     < int (shape (images\<lparr>shape := [N, H, W]\<rparr>) ! 0)
                  \<and> in_cell padding g (fst c) (snd c) i j)"
      using out sh by (auto simp: set_product_upt)
    from f [OF ij' this] o(5) [OF ij'] show ?thesis by simp
  qed
  have "best_grid (int (shape images ! 0)) = Inr (n_rows, n_cols)" using bg sh by simp
  moreover have "grid_geometry padding resize_to_fit n_rows n_cols (shape images ! 1)
                   (shape images ! 2) = Inr g"
    using geo sh by (simp add: numeral_2_eq_2)
  ultimately show ?thesis using s bgc by blast
qed

section \<open>A batch that is placed without resizing\<close>

lemma py_slice_fits:
  assumes "0 \<le> a" "a + int h \<le> int L"
  shows "py_slice a (a + int h) L = (nat a, nat a + h)"
  using assms by (auto simp: py_slice_def clip_index_def Let_def min_def max_def nat_add_distrib)

lemma setitem2_fits:
  assumes sh: "shape grid = [Hh, Ww]" and v: "shape v = [h, w]"
    and a: "0 \<le> a" "a + int h \<le> int Hh" and c: "0 \<le> c" "c + int w \<le> int Ww"
  shows "\<exists>grid'. setitem2 grid (a, a + int h) (c, c + int w) v = Inr grid'"
  using sh v by (simp add: setitem2_def Let_def py_slice_fits [OF a] py_slice_fits [OF c]
      broadcast2_def)

lemma place_image_plain_ok:
  assumes sh: "shape grid = [nat Lh, nat Lw]"
    and im: "shape images = [N, H, W]"
    and nh: "new_height g = int H" and nw: "new_width g = int W"
    and Lh: "Lh = n_rows * new_height g + (n_rows + 1) * padding"
    and Lw: "Lw = n_cols * new_width g + (n_cols + 1) * padding"
    and p: "0 \<le> padding" and rc: "int row < n_rows" "int col < n_cols"
  shows "\<exists>grid'. place_image cv images padding False False n_cols g grid (row, col) = Inr grid'"
proof (cases "int (shape images ! 0) \<le> int row * n_cols + int col")
  case True
  then show ?thesis by (simp add: place_image_def Let_def)
next
  case False
  let ?v = "image_at images (nat (int row * n_cols + int col))"
  have v: "shape ?v = [H, W]" using im by (simp add: image_at_def Let_def)
  have H0: "0 \<le> new_height g" and W0: "0 \<le> new_width g" using nh nw by simp_all
  note fh = cell_fits [OF p H0 rc(1)] and fw = cell_fits [OF p W0 rc(2)]
  have a: "0 \<le> base_of padding (int H) row" "base_of padding (int H) row + int H \<le> int (nat Lh)"
    using fh Lh nh by simp_all
  have c: "0 \<le> base_of padding (int W) col" "base_of padding (int W) col + int W \<le> int (nat Lw)"
    using fw Lw nw by simp_all
  from setitem2_fits [OF sh v a c] False show ?thesis
    by (simp add: place_image_def Let_def grid_resize_def grid_normalize_def nh nw)
qed

lemma for_each_plain_ok:
  assumes sh: "shape grid = [nat Lh, nat Lw]" and len: "length (data grid) = nat Lh * nat Lw"
    and im: "shape images = [N, H, W]"
    and nh: "new_height g = int H" and nw: "new_width g = int W"
    and Lh: "Lh = n_rows * new_height g + (n_rows + 1) * padding" "0 \<le> Lh"
    and Lw: "Lw = n_cols * new_width g + (n_cols + 1) * padding" "0 \<le> Lw"
    and p: "0 \<le> padding"
    and cells: "\<forall>c \<in> set cells. int (fst c) < n_rows \<and> int (snd c) < n_cols"
  shows "\<exists>grid'. for_each (place_image cv images padding False False n_cols g) cells grid
                  = Inr grid'"
  using sh len cells
proof (induction cells arbitrary: grid)
  case Nil
  then show ?case by simp
next
  case (Cons c cells)
  obtain row col where c: "c = (row, col)" by (cases c) auto
  have rc: "int row < n_rows" "int col < n_cols" using Cons.prems(3) c by simp_all
  from place_image_plain_ok [OF Cons.prems(1) im nh nw Lh(1) Lw(1) p rc]
  obtain mid where
    pl: "place_image cv images padding False False n_cols g grid (row, col) = Inr mid"
    by blast
  note fr = place_image_frame [OF pl Cons.prems(1,2) Lh Lw p rc]
  have "\<forall>c \<in> set cells. int (fst c) < n_rows \<and> int (snd c) < n_cols"
    using Cons.prems(3) by simp
  from Cons.IH [OF fr(1,2) this] pl show ?case by (simp add: c)
qed

lemma build_grid_image_plain_ok:
  assumes sh: "shape images = [N, H, W, 1]" and N: "1 \<le> N" and H: "1 \<le> H"
    and p: "0 \<le> padding"
  shows "\<exists>grid. build_grid_image cv images padding False False = Inr grid"
proof -
  have N1: "1 \<le> int N" using N by simp
  from best_grid_defined [OF N1] obtain n_rows n_cols where
    bg: "best_grid (int N) = Inr (n_rows, n_cols)"
    by blast
  have r1: "1 \<le> n_rows" and rc: "n_rows \<le> n_cols"
    using best_grid_Inr_pos [OF bg] by simp_all
  have nz: "n_rows * int H \<noteq> 0" using r1 H by simp
  let ?hs = "float64 (real_of_int (DESIRED_HEIGHT - (n_rows + 1) * padding)
                      / real_of_int (n_rows * int H))"
  let ?g = "\<lparr>total_row_padding = (n_rows + 1) * padding,
             total_col_padding = (n_cols + 1) * padding,
             height_scaling = ?hs, width_scaling = ?hs,
             new_height = int H, new_width = int W\<rparr>"
  have geo: "grid_geometry padding False n_rows n_cols H W = Inr ?g"
    using nz by (simp add: grid_geometry_def Let_def)
  let ?Lh = "n_rows * int H + (n_rows + 1) * padding"
  let ?Lw = "n_cols * int W + (n_cols + 1) * padding"
  have Lh0: "0 \<le> ?Lh" and Lw0: "0 \<le> ?Lw" using r1 rc p by simp_all
  let ?grid0 = "\<lparr>dtype = Float64, shape = [nat ?Lh, nat ?Lw],
                 data = replicate (nat ?Lh * nat ?Lw) DEFAULT_BACKGROUND_COLOR\<rparr>"
  have ones: "np_ones_times ?Lh ?Lw DEFAULT_BACKGROUND_COLOR = Inr ?grid0"
    using Lh0 Lw0 by (simp add: np_ones_times_def)
  have sq: "squeeze_last images = Inr (images\<lparr>shape := [N, H, W]\<rparr>)"
    using sh by (simp add: squeeze_last_def)
  have cells: "\<forall>c \<in> set (List.product [0..<nat n_rows] [0..<nat n_cols]).
                 int (fst c) < n_rows \<and> int (snd c) < n_cols"
    using set_product_upt by blast
  have "\<exists>grid. for_each (place_image cv (images\<lparr>shape := [N, H, W]\<rparr>) padding False False
                          n_cols ?g)
                 (List.product [0..<nat n_rows] [0..<nat n_cols]) ?grid0 = Inr grid"
    by (rule for_each_plain_ok [where Lh = ?Lh and Lw = ?Lw and n_rows = n_rows
          and N = N and H = H and W = W])
       (use Lh0 Lw0 p cells in simp_all)
  then show ?thesis
    using sh sq bg geo ones by (simp add: build_grid_image_def ndim_def)
qed

section \<open>A negative padding without resizing\<close>

lemma product_upt_head:
  assumes "0 < a" "0 < b"
  shows "\<exists>rest. List.product [0..<a] [0..<b] = (0, 0) # rest"
proof -
  have "[0..<a] = 0 # [Suc 0..<a]" "[0..<b] = 0 # [Suc 0..<b]"
    using assms by (simp_all add: upt_conv_Cons)
  then show ?thesis by simp
qed

lemma normalize_by_shape:
  "normalize_by img m = Inr out \<Longrightarrow> shape out = shape img"
  by (auto simp: normalize_by_def arr_mul_def arr_div_def split: if_splits)

lemma grid_normalize_shape:
  "grid_normalize normalize' img = Inr out \<Longrightarrow> shape out = shape img"
  by (auto simp: grid_normalize_def and_then_Inr_iff dest: normalize_by_shape split: if_splits)

lemma setitem2_Inr_broadcast:
  assumes "setitem2 grid (a, b) (c, d) v = Inr grid'" and "shape v = [h, w]"
  shows "h = snd (py_slice a b (shape grid ! 0)) - fst (py_slice a b (shape grid ! 0)) \<or> h = 1"
  using assms
  by (auto simp: setitem2_def Let_def broadcast2_def split: prod.splits option.splits if_splits)

lemma negative_slice_short:
  fixes p :: int and H L :: nat
  assumes p: "p < 0" and H: "0 \<le> p + int H"
  shows "snd (py_slice p (p + int H) L) - fst (py_slice p (p + int H) L) < H"
proof -
  let ?lo = "clip_index p L" and ?c = "clip_index (p + int H) L"
  have c: "?c \<le> nat (p + int H)" using H by (simp add: clip_index_def)
  have "nat (p + int H) < H" using p H by linarith
  with c have "?c < H" by linarith
  moreover have "max ?lo ?c - ?lo \<le> ?c" by (simp add: max_def)
  ultimately show ?thesis by (simp add: py_slice_def Let_def)
qed

lemma negative_padding_plain_fails:
  assumes p: "padding < 0"
  shows "build_grid_image cv images padding False normalize' \<noteq> Inr grid"
proof
  assume b: "build_grid_image cv images padding False normalize' = Inr grid"
  from build_grid_image_Inr [OF b] obtain N H W n_rows n_cols g grid0 where
    sh: "shape images = [N, H, W, 1]"
    and bg: "best_grid (int N) = Inr (n_rows, n_cols)"
    and geo: "grid_geometry padding False n_rows n_cols H W = Inr g"
    and ones: "np_ones_times (n_rows * new_height g + total_row_padding g)
              (n_cols * new_width g + total_col_padding g) DEFAULT_BACKGROUND_COLOR = Inr grid0"
    and fe: "for_each (place_image cv (images\<lparr>shape := [N, H, W]\<rparr>) padding False
                       normalize' n_cols g)
              (List.product [0..<nat n_rows] [0..<nat n_cols]) grid0 = Inr grid"
    by blast
  note pos = best_grid_Inr_pos [OF bg]
  note gg = grid_geometry_Inr [OF geo]
  have nh: "new_height g = int H" and nw: "new_width g = int W" using gg(6,7) by simp_all
  have H1: "1 \<le> H" using gg(1) by (cases H) simp_all
  let ?Lh = "n_rows * int H + (n_rows + 1) * padding"
  have ones': "np_ones_times ?Lh (n_cols * new_width g + total_col_padding g)
                 DEFAULT_BACKGROUND_COLOR = Inr grid0"
    using ones gg(2) nh by simp
  note o = np_ones_times_Inr [OF ones']
  have Ls: "?Lh = n_rows * (int H + padding) + padding" by (simp add: algebra_simps)
  have Hp: "0 \<le> padding + int H"
  proof (rule ccontr)
    assume "\<not> 0 \<le> padding + int H"
    then have neg: "int H + padding < 0" by simp
    then have "0 \<le> (n_rows - 1) * (- (int H + padding))"
      using pos(2) by (intro mult_nonneg_nonneg) simp_all
    then have "n_rows * (int H + padding) \<le> int H + padding" by (simp add: algebra_simps)
    with neg p Ls o(1) show False by linarith
  qed
  have Hne1: "H \<noteq> 1"
  proof
    assume "H = 1"
    then have L1: "?Lh = n_rows + (n_rows + 1) * padding" by simp
    have "(n_rows + 1) * padding \<le> (n_rows + 1) * (- 1)"
      using p pos(2) by (intro mult_left_mono) simp_all
    then have "(n_rows + 1) * padding \<le> - n_rows - 1" by simp
    with L1 o(1) show False by linarith
  qed
  from product_upt_head [of "nat n_rows" "nat n_cols"] pos obtain rest where
    cells: "List.product [0..<nat n_rows] [0..<nat n_cols] = (0, 0) # rest"
    by auto
  from fe obtain mid where
    pl: "place_image cv (images\<lparr>shape := [N, H, W]\<rparr>) padding False normalize' n_cols g
           grid0 (0, 0) = Inr mid"
    by (auto simp: cells split: sum.splits)
  then obtain v where
    v: "grid_normalize normalize' (image_at (images\<lparr>shape := [N, H, W]\<rparr>) 0) = Inr v"
    and st: "setitem2 grid0 (padding, padding + int H) (padding, padding + int W) v = Inr mid"
    using pos(1)
    by (auto simp: place_image_def Let_def grid_resize_def and_then_Inr_iff base_of_def nh nw)
  have sv: "shape v = [H, W]"
    using grid_normalize_shape [OF v] by (simp add: image_at_def Let_def)
  from setitem2_Inr_broadcast [OF st sv] Hne1 o(3)
  have "H = snd (py_slice padding (padding + int H) (nat ?Lh))
              - fst (py_slice padding (padding + int H) (nat ?Lh))"
    by simp
  with negative_slice_short [OF p Hp, of "nat ?Lh"] show False by simp
qed

section \<open>Cells and padding that keep the background\<close>

lemma setitem2_content:
  assumes set: "setitem2 grid (a, a + int h) (c, c + int w) v = Inr grid'"
    and sh: "shape grid = [Hh, Ww]" and v: "shape v = [h, w]"
    and a: "0 \<le> a" "a + int h \<le> int Hh" and c: "0 \<le> c" "c + int w \<le> int Ww"
    and i: "i < h" and j: "j < w"
  shows "at2 grid' (nat a + i) (nat c + j) = at2 v i j"
proof -
  have g': "grid' = grid\<lparr>data :=
               map (\<lambda>k. let i = k div Ww; j = k mod Ww
                        in if nat a \<le> i \<and> i < nat a + h \<and> nat c \<le> j \<and> j < nat c + w
                           then data v ! ((if h = 1 then 0 else i - nat a) * w
                                          + (if w = 1 then 0 else j - nat c))
                           else data grid ! k)
                   [0..<Hh * Ww]\<rparr>"
    using set sh v
    by (auto simp: setitem2_def Let_def py_slice_fits [OF a] py_slice_fits [OF c] broadcast2_def)
  have ih: "nat a + i < Hh" using a i by linarith
  have jw: "nat c + j < Ww" using c j by linarith
  have k: "(nat a + i) * Ww + (nat c + j) < Hh * Ww" by (rule flat_index_less [OF ih jw])
  have i0: "(if h = 1 then 0 else i) = i" using i by simp
  have j0: "(if w = 1 then 0 else j) = j" using j by simp
  have "data grid' ! ((nat a + i) * Ww + (nat c + j))
          = data v ! ((if h = 1 then 0 else i) * w + (if w = 1 then 0 else j))"
    using k i j flat_div_mod [OF jw, of "nat a + i"]
    by (simp add: g' Let_def del: upt_Suc)
  then have "data grid' ! ((nat a + i) * Ww + (nat c + j)) = data v ! (i * w + j)"
    by (simp only: i0 j0)
  then show ?thesis using sh v g' by (simp add: at2_def)
qed

lemma place_image_content:
  assumes pl: "place_image cv images padding resize_to_fit normalize' n_cols g grid (row, col)
                 = Inr grid'"
    and sh: "shape grid = [nat Lh, nat Lw]"
    and Lh: "Lh = n_rows * new_height g + (n_rows + 1) * padding"
    and Lw: "Lw = n_cols * new_width g + (n_cols + 1) * padding"
    and p: "0 \<le> padding" and rc: "int row < n_rows" "int col < n_cols"
    and n: "int row * n_cols + int col < int (shape images ! 0)"
  shows "\<exists>img img'.
           grid_resize cv resize_to_fit g (image_at images (nat (int row * n_cols + int col)))
             = Inr img
         \<and> grid_normalize normalize' img = Inr img'
         \<and> (shape img' = [nat (new_height g), nat (new_width g)] \<longrightarrow>
              (\<forall>a b. a < nat (new_height g) \<longrightarrow> b < nat (new_width g) \<longrightarrow>
                 at2 grid' (nat (base_of padding (new_height g) row) + a)
                           (nat (base_of padding (new_width g) col) + b)
                   = at2 img' a b))"
proof -
  let ?bh = "base_of padding (new_height g) row" and ?bw = "base_of padding (new_width g) col"
  from pl n obtain img img' where
    r: "grid_resize cv resize_to_fit g (image_at images (nat (int row * n_cols + int col)))
          = Inr img"
    and nm: "grid_normalize normalize' img = Inr img'"
    and st: "setitem2 grid (?bh, ?bh + new_height g) (?bw, ?bw + new_width g) img' = Inr grid'"
    by (auto simp: place_image_def Let_def and_then_Inr_iff)
  have ct: "at2 grid' (nat ?bh + a) (nat ?bw + b) = at2 img' a b"
    if s: "shape img' = [nat (new_height g), nat (new_width g)]"
      and ab: "a < nat (new_height g)" "b < nat (new_width g)" for a b
  proof -
    have nh: "0 \<le> new_height g" and nw: "0 \<le> new_width g" using ab by simp_all
    have st': "setitem2 grid (?bh, ?bh + int (nat (new_height g)))
                 (?bw, ?bw + int (nat (new_width g))) img' = Inr grid'"
      using st nh nw by simp
    have fh: "0 \<le> ?bh" "?bh + int (nat (new_height g)) \<le> int (nat Lh)"
      using cell_fits [OF p nh rc(1)] Lh nh by simp_all
    have fw: "0 \<le> ?bw" "?bw + int (nat (new_width g)) \<le> int (nat Lw)"
      using cell_fits [OF p nw rc(2)] Lw nw by simp_all
    show ?thesis by (rule setitem2_content [OF st' sh s fh fw ab])
  qed
  from r nm ct show ?thesis by blast
qed

lemma in_cell_offset:
  assumes p: "0 \<le> padding" and ab: "a < nat (new_height g)" "b < nat (new_width g)"
  shows "in_cell padding g row col (nat (base_of padding (new_height g) row) + a)
           (nat (base_of padding (new_width g) col) + b)"
proof -
  have nh: "0 \<le> new_height g" and nw: "0 \<le> new_width g" using ab by simp_all
  have "0 \<le> base_of padding (new_height g) row" "0 \<le> base_of padding (new_width g) col"
    using p nh nw by (simp_all add: base_of_def)
  then show ?thesis using ab unfolding in_cell_def by linarith
qed

lemma for_each_content:
  assumes fe: "for_each (place_image cv images padding resize_to_fit normalize' n_cols g)
                 cells grid = Inr grid'"
    and sh: "shape grid = [nat Lh, nat Lw]" and len: "length (data grid) = nat Lh * nat Lw"
    and Lh: "Lh = n_rows * new_height g + (n_rows + 1) * padding" "0 \<le> Lh"
    and Lw: "Lw = n_cols * new_width g + (n_cols + 1) * padding" "0 \<le> Lw"
    and p: "0 \<le> padding"
    and cells: "\<forall>c \<in> set cells. int (fst c) < n_rows \<and> int (snd c) < n_cols"
    and dist: "distinct cells" and mem: "(row, col) \<in> set cells"
    and n: "int row * n_cols + int col < int (shape images ! 0)"
  shows "\<exists>img img'.
           grid_resize cv resize_to_fit g (image_at images (nat (int row * n_cols + int col)))
             = Inr img
         \<and> grid_normalize normalize' img = Inr img'
         \<and> (shape img' = [nat (new_height g), nat (new_width g)] \<longrightarrow>
              (\<forall>a b. a < nat (new_height g) \<longrightarrow> b < nat (new_width g) \<longrightarrow>
                 at2 grid' (nat (base_of padding (new_height g) row) + a)
                           (nat (base_of padding (new_width g) col) + b)
                   = at2 img' a b))"
  using fe sh len cells dist mem
proof (induction cells arbitrary: grid)
  case Nil
  then show ?case by simp
next
  case (Cons c cells)
  obtain row' col' where c: "c = (row', col')" by (cases c) auto
  from Cons.prems(1) obtain mid where
    pl: "place_image cv images padding resize_to_fit normalize' n_cols g grid (row', col')
           = Inr mid"
    and rest: "for_each (place_image cv images padding resize_to_fit normalize' n_cols g)
                 cells mid = Inr grid'"
    by (auto simp: c split: sum.splits)
  have rc': "int row' < n_rows" "int col' < n_cols" using Cons.prems(4) c by simp_all
  note fr = place_image_frame [OF pl Cons.prems(2,3) Lh Lw p rc']
  have cells': "\<forall>c \<in> set cells. int (fst c) < n_rows \<and> int (snd c) < n_cols"
    using Cons.prems(4) by simp
  have dist': "distinct cells" using Cons.prems(5) by simp
  show ?case
  proof (cases "c = (row, col)")
    case True
    then have eq: "row' = row" "col' = col" using c by simp_all
    have rc: "int row < n_rows" "int col < n_cols" using rc' eq by simp_all
    have notin: "(row, col) \<notin> set cells" using Cons.prems(5) True by simp
    from place_image_content [OF pl [unfolded eq] Cons.prems(2) Lh(1) Lw(1) p rc n]
    obtain img img' where
      r: "grid_resize cv resize_to_fit g (image_at images (nat (int row * n_cols + int col)))
            = Inr img"
      and nm: "grid_normalize normalize' img = Inr img'"
      and ct: "shape img' = [nat (new_height g), nat (new_width g)] \<Longrightarrow>
                 a < nat (new_height g) \<Longrightarrow> b < nat (new_width g) \<Longrightarrow>
                 at2 mid (nat (base_of padding (new_height g) row) + a)
                         (nat (base_of padding (new_width g) col) + b)
                   = at2 img' a b" for a b
      by blast
    from for_each_frame [OF rest fr(1,2) Lh Lw p cells'] have
      f: "\<And>i j. i < nat Lh \<Longrightarrow> j < nat Lw \<Longrightarrow>
            (\<forall>c \<in> set cells. \<not> (int (fst c) * n_cols + int (snd c) < int (shape images ! 0)
                                  \<and> in_cell padding g (fst c) (snd c) i j))
            \<Longrightarrow> at2 grid' i j = at2 mid i j"
      by blast
    have "at2 grid' (nat (base_of padding (new_height g) row) + a)
                    (nat (base_of padding (new_width g) col) + b)
            = at2 img' a b"
      if s: "shape img' = [nat (new_height g), nat (new_width g)]"
        and ab: "a < nat (new_height g)" "b < nat (new_width g)" for a b
    proof -
      let ?i = "nat (base_of padding (new_height g) row) + a"
      let ?j = "nat (base_of padding (new_width g) col) + b"
      have ic: "in_cell padding g row col ?i ?j" by (rule in_cell_offset [OF p ab])
      have ij: "?i < nat Lh" "?j < nat Lw"
        using in_cell_in_canvas [OF p rc ic] Lh(1) Lw(1) by simp_all
      have "\<forall>c \<in> set cells. \<not> (int (fst c) * n_cols + int (snd c) < int (shape images ! 0)
                                  \<and> in_cell padding g (fst c) (snd c) ?i ?j)"
      proof
        fix c' assume c': "c' \<in> set cells"
        show "\<not> (int (fst c') * n_cols + int (snd c') < int (shape images ! 0)
                 \<and> in_cell padding g (fst c') (snd c') ?i ?j)"
        proof
          assume "int (fst c') * n_cols + int (snd c') < int (shape images ! 0)
                 \<and> in_cell padding g (fst c') (snd c') ?i ?j"
          then have "in_cell padding g (fst c') (snd c') ?i ?j" by simp
          from in_cell_same [OF p ic this] have "c' = (row, col)" by (cases c') simp
          with c' notin show False by simp
        qed
      qed
      from f [OF ij this] ct [OF s ab] show ?thesis by simp
    qed
    with r nm show ?thesis by blast
  next
    case False
    then have mem': "(row, col) \<in> set cells" using Cons.prems(6) by simp
    from Cons.IH [OF rest fr(1,2) cells' dist' mem'] show ?thesis .
  qed
qed

lemma placed_cells_hold_images:
  assumes b: "build_grid_image cv images padding resize_to_fit normalize' = Inr grid"
    and p: "0 \<le> padding"
    and bg: "best_grid (int (shape images ! 0)) = Inr (n_rows, n_cols)"
    and geo: "grid_geometry padding resize_to_fit n_rows n_cols (shape images ! 1)
                (shape images ! 2) = Inr g"
    and rc: "int row < n_rows" "int col < n_cols"
    and n: "int row * n_cols + int col < int (shape images ! 0)"
  shows "\<exists>img img'.
           grid_resize cv resize_to_fit g
               (image_at (images\<lparr>shape := butlast (shape images)\<rparr>)
                  (nat (int row * n_cols + int col)))
             = Inr img
         \<and> grid_normalize normalize' img = Inr img'
         \<and> (shape img' = [nat (new_height g), nat (new_width g)] \<longrightarrow>
              (\<forall>a b. a < nat (new_height g) \<longrightarrow> b < nat (new_width g) \<longrightarrow>
                 at2 grid (nat (base_of padding (new_height g) row) + a)
                          (nat (base_of padding (new_width g) col) + b)
                   = at2 img' a b))"
proof -
  from build_grid_image_Inr [OF b] obtain N H W n_rows' n_cols' g' grid0 where
    sh: "shape images = [N, H, W, 1]"
    and bg': "best_grid (int N) = Inr (n_rows', n_cols')"
    and geo': "grid_geometry padding resize_to_fit n_rows' n_cols' H W = Inr g'"
    and ones: "np_ones_times (n_rows' * new_height g' + total_row_padding g')
              (n_cols' * new_width g' + total_col_padding g') DEFAULT_BACKGROUND_COLOR = Inr grid0"
    and fe: "for_each (place_image cv (images\<lparr>shape := [N, H, W]\<rparr>) padding resize_to_fit
                       normalize' n_cols' g')
              (List.product [0..<nat n_rows'] [0..<nat n_cols']) grid0 = Inr grid"
    by blast
  have e1: "n_rows' = n_rows" "n_cols' = n_cols" using bg bg' sh by simp_all
  have e2: "g' = g" using geo geo' sh e1 by (simp add: numeral_2_eq_2)
  let ?Lh = "n_rows * new_height g + (n_rows + 1) * padding"
  let ?Lw = "n_cols * new_width g + (n_cols + 1) * padding"
  note gg = grid_geometry_Inr [OF geo]
  have ones': "np_ones_times ?Lh ?Lw DEFAULT_BACKGROUND_COLOR = Inr grid0"
    using ones gg(2,3) e1 e2 by simp
  note o = np_ones_times_Inr [OF ones']
  have fe': "for_each (place_image cv (images\<lparr>shape := [N, H, W]\<rparr>) padding resize_to_fit
                       normalize' n_cols g)
              (List.product [0..<nat n_rows] [0..<nat n_cols]) grid0 = Inr grid"
    using fe e1 e2 by simp
  have cells: "\<forall>c \<in> set (List.product [0..<nat n_rows] [0..<nat n_cols]).
                 int (fst c) < n_rows \<and> int (snd c) < n_cols"
    using set_product_upt by blast
  have dist: "distinct (List.product [0..<nat n_rows] [0..<nat n_cols])"
    by (simp add: distinct_product)
  have mem: "(row, col) \<in> set (List.product [0..<nat n_rows] [0..<nat n_cols])"
    using rc set_product_upt [of "(row, col)" n_rows n_cols] by simp
  have n': "int row * n_cols + int col < int (shape (images\<lparr>shape := [N, H, W]\<rparr>) ! 0)"
    using n sh by simp
  have bl: "butlast (shape images) = [N, H, W]" using sh by simp
  from for_each_content [OF fe' o(3,4) refl o(1) refl o(2) p cells dist mem n']
  show ?thesis unfolding bl .
qed

lemma cell_at_background_iff:
  "cell_at_background grid padding g (row, col)
     \<longleftrightarrow> (\<forall>i j. in_cell padding g row col i j \<longrightarrow> at2 grid i j = DEFAULT_BACKGROUND_COLOR)"
proof -
  have "in_cell padding g row col i j
          \<longleftrightarrow> i \<in> set [nat (base_of padding (new_height g) row)
                          ..<nat (base_of padding (new_height g) row + new_height g)]
              \<and> j \<in> set [nat (base_of padding (new_width g) col)
                          ..<nat (base_of padding (new_width g) col + new_width g)]" for i j
    unfolding in_cell_def by (simp only: set_upt atLeastLessThan_iff) linarith
  then show ?thesis
    unfolding cell_at_background_def Let_def list_all_iff fst_conv snd_conv by blast
qed

lemma cells_2_by_4:
  "List.product [0..<2] [0..<4]
     = [(0, 0), (0, 1), (0, 2), (0, 3), (1, 0), (1, 1), (1, 2), (1::nat, 3::nat)]"
  by (simp add: upt_rec)

lemma setitem2_same:
  assumes sh: "shape grid = [Hh, Ww]" and d: "data grid = replicate (Hh * Ww) x"
    and v: "shape v = [1, 1]" "data v = [x]"
  shows "setitem2 grid slice_h slice_w v = Inr grid"
proof -
  obtain r0 r1 where rs: "py_slice (fst slice_h) (snd slice_h) Hh = (r0, r1)"
    by (cases "py_slice (fst slice_h) (snd slice_h) Hh") auto
  obtain c0 c1 where cs: "py_slice (fst slice_w) (snd slice_w) Ww = (c0, c1)"
    by (cases "py_slice (fst slice_w) (snd slice_w) Ww") auto
  have "map (\<lambda>k. if r0 \<le> k div Ww \<and> k div Ww < r1 \<and> c0 \<le> k mod Ww \<and> k mod Ww < c1
                 then x else replicate (Hh * Ww) x ! k) [0..<Hh * Ww]
          = replicate (Hh * Ww) x"
    by (rule nth_equalityI) simp_all
  then have m: "map (\<lambda>k. if r0 \<le> k div Ww \<and> k div Ww < r1 \<and> c0 \<le> k mod Ww \<and> k mod Ww < c1
                 then x else data grid ! k) [0..<Hh * Ww]
          = data grid"
    by (simp only: d)
  have "setitem2 grid slice_h slice_w v
          = Inr (grid\<lparr>data :=
                   map (\<lambda>k. if r0 \<le> k div Ww \<and> k div Ww < r1 \<and> c0 \<le> k mod Ww \<and> k mod Ww < c1
                            then x else data grid ! k) [0..<Hh * Ww]\<rparr>)"
    using sh v rs cs by (simp add: setitem2_def Let_def broadcast2_def)
  also have "\<dots> = Inr grid" by (simp only: m) simp
  finally show ?thesis .
qed

lemma place_image_uniform:
  assumes sh: "shape grid = [Hh, Ww]" and d: "data grid = replicate (Hh * Ww) x"
    and im: "shape images = [N, 1, 1]" "data images = replicate N x"
    and nc: "0 \<le> n_cols"
  shows "place_image cv images padding False False n_cols g grid cell = Inr grid"
proof (cases "int N \<le> int (fst cell) * n_cols + int (snd cell)")
  case True
  then show ?thesis using im by (simp add: place_image_def Let_def)
next
  case False
  let ?n = "nat (int (fst cell) * n_cols + int (snd cell))"
  have "0 \<le> int (fst cell) * n_cols + int (snd cell)" using nc by simp
  then have n: "?n < N" using False by linarith
  then have "take (Suc 0) (drop ?n (replicate N x)) = [x]"
    by (cases "N - ?n") simp_all
  then have v: "shape (image_at images ?n) = [1, 1]" "data (image_at images ?n) = [x]"
    using im by (simp_all add: image_at_def Let_def)
  from False setitem2_same [OF sh d v] show ?thesis
    using im by (simp add: place_image_def Let_def grid_resize_def grid_normalize_def)
qed

lemma for_each_uniform:
  assumes sh: "shape grid = [Hh, Ww]" and d: "data grid = replicate (Hh * Ww) x"
    and im: "shape images = [N, 1, 1]" "data images = replicate N x"
    and nc: "0 \<le> n_cols"
  shows "for_each (place_image cv images padding False False n_cols g) cells grid = Inr grid"
  by (induction cells) (simp_all add: place_image_uniform [OF sh d im nc])

lemma float64_half_497: "float64 (497 / 2) = 497 / 2"
  by (subst float64_eval [of 7]) (simp_all add: py_round_def Let_def)

lemma geometry_of_7_unit_images:
  "grid_geometry 1 False 2 4 1 1
     = Inr \<lparr>total_row_padding = 3, total_col_padding = 5,
            height_scaling = 497 / 2, width_scaling = 497 / 2,
            new_height = 1, new_width = 1\<rparr>"
  by (simp add: grid_geometry_def Let_def DESIRED_HEIGHT_def float64_half_497)

text \<open>
  C9, as claimed: a batch of 7 images leaves exactly one cell entirely at the background
  value. The cell \<open>(1, 3)\<close> is not the only one when an image is itself uniformly
  \<open>0.3 * 255 = 76.5\<close>: for 7 such images of one pixel, with padding 1 and neither resizing
  nor normalization, the grid image is 5 by 9, every sample of it is the background
  value, and all 8 cells are entirely at background.
\<close>

theorem background_images_fill_every_cell:
  "build_grid_image (key_cv 0)
       (float_image [7, 1, 1, 1] (replicate 7 DEFAULT_BACKGROUND_COLOR)) 1 False False
     = Inr (float_image [5, 9] (replicate 45 DEFAULT_BACKGROUND_COLOR))
   \<and> grid_geometry 1 False 2 4 1 1
     = Inr \<lparr>total_row_padding = 3, total_col_padding = 5,
            height_scaling = 497 / 2, width_scaling = 497 / 2,
            new_height = 1, new_width = 1\<rparr>
   \<and> filter
       (cell_at_background (float_image [5, 9] (replicate 45 DEFAULT_BACKGROUND_COLOR)) 1
          \<lparr>total_row_padding = 3, total_col_padding = 5,
           height_scaling = 497 / 2, width_scaling = 497 / 2,
           new_height = 1, new_width = 1\<rparr>)
       (List.product [0..<2] [0..<4])
     = [(0, 0), (0, 1), (0, 2), (0, 3), (1, 0), (1, 1), (1, 2), (1, 3)]"
proof (intro conjI)
  let ?images = "float_image [7, 1, 1, 1] (replicate 7 DEFAULT_BACKGROUND_COLOR)"
  let ?G = "float_image [5, 9] (replicate 45 DEFAULT_BACKGROUND_COLOR)"
  let ?g = "\<lparr>total_row_padding = 3, total_col_padding = 5,
             height_scaling = 497 / 2, width_scaling = 497 / 2,
             new_height = 1, new_width = 1\<rparr>"
  have sq: "squeeze_last ?images = Inr (?images\<lparr>shape := [7, 1, 1]\<rparr>)"
    by (simp add: squeeze_last_def float_image_def)
  have ones: "np_ones_times 5 9 DEFAULT_BACKGROUND_COLOR = Inr ?G"
    by (simp add: np_ones_times_def float_image_def)
  have G: "shape ?G = [5, 9]" "data ?G = replicate (5 * 9) DEFAULT_BACKGROUND_COLOR"
    by (simp_all add: float_image_def)
  have im: "shape (?images\<lparr>shape := [7, 1, 1]\<rparr>) = [7, 1, 1]"
    "data (?images\<lparr>shape := [7, 1, 1]\<rparr>) = replicate 7 DEFAULT_BACKGROUND_COLOR"
    by (simp_all add: float_image_def)
  have fe: "for_each (place_image (key_cv 0) (?images\<lparr>shape := [7, 1, 1]\<rparr>) 1 False False 4 ?g)
              (List.product [0..<nat 2] [0..<nat 4]) ?G = Inr ?G"
    by (rule for_each_uniform [OF G im]) simp
  have nd: "ndim ?images = 4" by (simp add: ndim_def float_image_def)
  show "build_grid_image (key_cv 0) ?images 1 False False = Inr ?G"
    unfolding build_grid_image_def nd sq
    using fe by (simp add: best_grid_7 geometry_of_7_unit_images [unfolded One_nat_def] ones)
  show "grid_geometry 1 False 2 4 1 1 = Inr ?g" by (rule geometry_of_7_unit_images)
  have "at2 ?G i j = DEFAULT_BACKGROUND_COLOR" if "i < 5" "j < 9" for i j
  proof -
    have "i * 9 + j < 5 * 9" by (rule flat_index_less [OF that])
    then show ?thesis by (simp add: at2_def float_image_def)
  qed
  then have "cell_at_background ?G 1 ?g (row, col)" if "row < 2" "col < 4" for row col
    unfolding cell_at_background_iff in_cell_def base_of_def using that by simp
  then show "filter (cell_at_background ?G 1 ?g) (List.product [0..<2] [0..<4])
     = [(0, 0), (0, 1), (0, 2), (0, 3), (1, 0), (1, 1), (1, 2), (1, 3)]"
    unfolding cells_2_by_4 by simp
qed

text \<open>
  C9, amended. After \<open>show_images_grid\<close> has assembled a batch of \<open>N\<close> images into its grid,
  with a padding that is not negative or without resizing (where a negative padding
  never gets through):
  \<^item> every cell whose index \<open>row * n_cols + col\<close> is at least \<open>N\<close> holds the background
    value \<open>0.3 * 255\<close> at every position of its placement rectangle, which lies inside the
    grid image;
  \<^item> so does every position of the grid image outside all placement rectangles, that is
    the padding;
  \<^item> every cell whose index \<open>n\<close> is below \<open>N\<close> has image \<open>n\<close> resized and normalized without
    an error and, when the result has the size of a cell, holds it sample by sample;
  \<^item> for 7 images the layout is 2 by 4 and the cell \<open>(1, 3)\<close> is entirely at background; it
    is the only such cell of the 8 whenever each of the 7 images, as resized and
    normalized, has the size of a cell and a sample that is not the background value.
\<close>

theorem unplaced_cells_keep_background:
  assumes b: "build_grid_image cv images padding resize_to_fit normalize' = Inr grid"
    and pr: "0 \<le> padding \<or> \<not> resize_to_fit"
  shows "\<exists>n_rows n_cols g.
           best_grid (int (shape images ! 0)) = Inr (n_rows, n_cols)
         \<and> grid_geometry padding resize_to_fit n_rows n_cols (shape images ! 1) (shape images ! 2)
             = Inr g
         \<and> shape grid = [nat (n_rows * new_height g + (n_rows + 1) * padding),
                         nat (n_cols * new_width g + (n_cols + 1) * padding)]
         \<and> (\<forall>row col i j. int row < n_rows \<longrightarrow> int col < n_cols \<longrightarrow>
               int (shape images ! 0) \<le> int row * n_cols + int col \<longrightarrow>
               in_cell padding g row col i j \<longrightarrow>
               i < shape grid ! 0 \<and> j < shape grid ! 1
               \<and> at2 grid i j = DEFAULT_BACKGROUND_COLOR)
         \<and> (\<forall>i j. i < shape grid ! 0 \<longrightarrow> j < shape grid ! 1 \<longrightarrow>
               (\<forall>row col. int row < n_rows \<longrightarrow> int col < n_cols \<longrightarrow>
                  \<not> in_cell padding g row col i j)
               \<longrightarrow> at2 grid i j = DEFAULT_BACKGROUND_COLOR)
         \<and> (\<forall>row col. int row < n_rows \<longrightarrow> int col < n_cols \<longrightarrow>
               int row * n_cols + int col < int (shape images ! 0) \<longrightarrow>
               (\<exists>img img'.
                  grid_resize cv resize_to_fit g
                      (image_at (images\<lparr>shape := butlast (shape images)\<rparr>)
                         (nat (int row * n_cols + int col)))
                    = Inr img
                  \<and> grid_normalize normalize' img = Inr img'
                  \<and> (shape img' = [nat (new_height g), nat (new_width g)] \<longrightarrow>
                       (\<forall>a b. a < nat (new_height g) \<longrightarrow> b < nat (new_width g) \<longrightarrow>
                          at2 grid (nat (base_of padding (new_height g) row) + a)
                                   (nat (base_of padding (new_width g) col) + b)
                            = at2 img' a b))))
         \<and> (shape images ! 0 = 7 \<longrightarrow>
               n_rows = 2 \<and> n_cols = 4
               \<and> cell_at_background grid padding g (1, 3)
               \<and> ((\<forall>n img img'. n < 7 \<longrightarrow>
                      grid_resize cv resize_to_fit g
                          (image_at (images\<lparr>shape := butlast (shape images)\<rparr>) n) = Inr img \<longrightarrow>
                      grid_normalize normalize' img = Inr img' \<longrightarrow>
                      shape img' = [nat (new_height g), nat (new_width g)]
                      \<and> (\<exists>a b. a < nat (new_height g) \<and> b < nat (new_width g)
                                \<and> at2 img' a b \<noteq> DEFAULT_BACKGROUND_COLOR))
                   \<longrightarrow> filter (cell_at_background grid padding g) (List.product [0..<2] [0..<4])
                         = [(1, 3)]))"
proof -
  have p: "0 \<le> padding"
  proof (rule ccontr)
    assume "\<not> 0 \<le> padding"
    then have "padding < 0" and "\<not> resize_to_fit" using pr by simp_all
    with negative_padding_plain_fails [of padding cv images normalize' grid] b
    show False by simp
  qed
  from background_outside_placed [OF b p] obtain n_rows n_cols g where
    bg: "best_grid (int (shape images ! 0)) = Inr (n_rows, n_cols)"
    and geo: "grid_geometry padding resize_to_fit n_rows n_cols (shape images ! 1)
                (shape images ! 2) = Inr g"
    and s: "shape grid = [nat (n_rows * new_height g + (n_rows + 1) * padding),
                         nat (n_cols * new_width g + (n_cols + 1) * padding)]"
    and f: "\<And>i j. i < shape grid ! 0 \<Longrightarrow> j < shape grid ! 1 \<Longrightarrow>
               (\<forall>row col. int row < n_rows \<longrightarrow> int col < n_cols \<longrightarrow>
                  int row * n_cols + int col < int (shape images ! 0) \<longrightarrow>
                  \<not> in_cell padding g row col i j)
               \<Longrightarrow> at2 grid i j = DEFAULT_BACKGROUND_COLOR"
    by blast
  let ?images = "images\<lparr>shape := butlast (shape images)\<rparr>"
  let ?nh = "new_height g" and ?nw = "new_width g"
  have cell: "i < shape grid ! 0 \<and> j < shape grid ! 1 \<and> at2 grid i j = DEFAULT_BACKGROUND_COLOR"
    if rc: "int row < n_rows" "int col < n_cols"
      and un: "int (shape images ! 0) \<le> int row * n_cols + int col"
      and ic: "in_cell padding g row col i j" for row col i j
  proof -
    from in_cell_in_canvas [OF p rc ic] s have ij: "i < shape grid ! 0" "j < shape grid ! 1"
      by simp_all
    have "\<not> in_cell padding g row' col' i j"
      if "int row' * n_cols + int col' < int (shape images ! 0)" for row' col'
    proof
      assume "in_cell padding g row' col' i j"
      from in_cell_same [OF p ic this] that un show False by simp
    qed
    then have "at2 grid i j = DEFAULT_BACKGROUND_COLOR" by (intro f [OF ij]) blast
    with ij show ?thesis by simp
  qed
  have pad: "at2 grid i j = DEFAULT_BACKGROUND_COLOR"
    if "i < shape grid ! 0" "j < shape grid ! 1"
      "\<forall>row col. int row < n_rows \<longrightarrow> int col < n_cols \<longrightarrow> \<not> in_cell padding g row col i j"
    for i j
    using that by (intro f) blast+
  have placed: "\<exists>img img'.
            grid_resize cv resize_to_fit g (image_at ?images (nat (int row * n_cols + int col)))
              = Inr img
          \<and> grid_normalize normalize' img = Inr img'
          \<and> (shape img' = [nat ?nh, nat ?nw] \<longrightarrow>
               (\<forall>a b. a < nat ?nh \<longrightarrow> b < nat ?nw \<longrightarrow>
                  at2 grid (nat (base_of padding ?nh row) + a) (nat (base_of padding ?nw col) + b)
                    = at2 img' a b))"
    if "int row < n_rows" "int col < n_cols"
      "int row * n_cols + int col < int (shape images ! 0)" for row col
    by (rule placed_cells_hold_images [OF b p bg geo that])
  have seven: "n_rows = 2 \<and> n_cols = 4
               \<and> cell_at_background grid padding g (1, 3)
               \<and> ((\<forall>n img img'. n < 7 \<longrightarrow>
                      grid_resize cv resize_to_fit g (image_at ?images n) = Inr img \<longrightarrow>
                      grid_normalize normalize' img = Inr img' \<longrightarrow>
                      shape img' = [nat ?nh, nat ?nw]
                      \<and> (\<exists>a b. a < nat ?nh \<and> b < nat ?nw
                                \<and> at2 img' a b \<noteq> DEFAULT_BACKGROUND_COLOR))
                   \<longrightarrow> filter (cell_at_background grid padding g) (List.product [0..<2] [0..<4])
                         = [(1, 3)])"
    if N7: "shape images ! 0 = 7"
  proof -
    have rc: "n_rows = 2" "n_cols = 4" using bg N7 best_grid_7 by simp_all
    have last: "cell_at_background grid padding g (1, 3)"
      unfolding cell_at_background_iff
      using cell [of 1 3] rc N7 by simp
    have only: "filter (cell_at_background grid padding g) (List.product [0..<2] [0..<4])
                  = [(1, 3)]"
      if hyp: "\<forall>n img img'. n < 7 \<longrightarrow>
                      grid_resize cv resize_to_fit g (image_at ?images n) = Inr img \<longrightarrow>
                      grid_normalize normalize' img = Inr img' \<longrightarrow>
                      shape img' = [nat ?nh, nat ?nw]
                      \<and> (\<exists>a b. a < nat ?nh \<and> b < nat ?nw
                                \<and> at2 img' a b \<noteq> DEFAULT_BACKGROUND_COLOR)"
    proof -
      have nb: "\<not> cell_at_background grid padding g (row, col)"
        if r: "row < 2" "col < 4" "row * 4 + col < 7" for row col
      proof -
        have r': "int row < n_rows" "int col < n_cols"
          "int row * n_cols + int col < int (shape images ! 0)"
          using r rc N7 by simp_all
        have nn: "nat (int row * n_cols + int col) < 7" using r rc by simp
        from placed [OF r'] obtain img img' where
          rs: "grid_resize cv resize_to_fit g
                 (image_at ?images (nat (int row * n_cols + int col))) = Inr img"
          and nm: "grid_normalize normalize' img = Inr img'"
          and ct: "shape img' = [nat ?nh, nat ?nw] \<longrightarrow>
               (\<forall>a b. a < nat ?nh \<longrightarrow> b < nat ?nw \<longrightarrow>
                  at2 grid (nat (base_of padding ?nh row) + a) (nat (base_of padding ?nw col) + b)
                    = at2 img' a b)"
          by blast
        from hyp nn rs nm obtain a b where
          sh: "shape img' = [nat ?nh, nat ?nw]"
          and ab: "a < nat ?nh" "b < nat ?nw"
          and ne: "at2 img' a b \<noteq> DEFAULT_BACKGROUND_COLOR"
          by blast
        from ct sh ab ne have
          "at2 grid (nat (base_of padding ?nh row) + a) (nat (base_of padding ?nw col) + b)
             \<noteq> DEFAULT_BACKGROUND_COLOR"
          by simp
        with in_cell_offset [OF p ab, of row col] show ?thesis
          unfolding cell_at_background_iff by blast
      qed
      have "\<not> cell_at_background grid padding g (0, 0)"
        "\<not> cell_at_background grid padding g (0, 1)"
        "\<not> cell_at_background grid padding g (0, 2)"
        "\<not> cell_at_background grid padding g (0, 3)"
        "\<not> cell_at_background grid padding g (1, 0)"
        "\<not> cell_at_background grid padding g (1, 1)"
        "\<not> cell_at_background grid padding g (1, 2)"
        using nb [of 0 0] nb [of 0 1] nb [of 0 2] nb [of 0 3]
          nb [of 1 0] nb [of 1 1] nb [of 1 2]
        by simp_all
      with last show ?thesis unfolding cells_2_by_4 by simp
    qed
    from rc last only show ?thesis by blast
  qed
  from bg geo s cell pad placed seven show ?thesis by blast
qed

theorem unplaced_cells_keep_background_witness:
  "\<exists>grid g. build_grid_image (key_cv 0) (float_image [7, 1, 1, 1] [1, 2, 3, 4, 5, 6, 7]) 1
               False False = Inr grid
     \<and> grid_geometry 1 False 2 4 1 1 = Inr g
     \<and> shape grid = [5, 9]
     \<and> at2 grid 0 0 = DEFAULT_BACKGROUND_COLOR
     \<and> at2 grid 3 7 = DEFAULT_BACKGROUND_COLOR
     \<and> at2 grid 1 1 = 1
     \<and> at2 grid 3 5 = 7
     \<and> filter (cell_at_background grid 1 g) (List.product [0..<2] [0..<4]) = [(1, 3)]"
proof -
  let ?images = "float_image [7, 1, 1, 1] [1, 2, 3, 4, 5, 6, 7]"
  let ?sq = "?images\<lparr>shape := butlast (shape ?images)\<rparr>"
  have sh: "shape ?images = [7, 1, 1, 1]" by (simp add: float_image_def)
  have p: "(0::int) \<le> 1" by simp
  from build_grid_image_plain_ok [OF sh _ _ p, of "key_cv 0"] obtain grid where
    b: "build_grid_image (key_cv 0) ?images 1 False False = Inr grid"
    by auto
  have s0: "shape ?images ! 0 = 7" and s1: "shape ?images ! 1 = 1" and s2: "shape ?images ! 2 = 1"
    by (simp_all add: float_image_def)
  have pr: "(0::int) \<le> 1 \<or> \<not> False" by simp
  from unplaced_cells_keep_background [OF b pr] obtain n_rows n_cols g where
    geo: "grid_geometry 1 False n_rows n_cols (shape ?images ! 1) (shape ?images ! 2) = Inr g"
    and s: "shape grid = [nat (n_rows * new_height g + (n_rows + 1) * 1),
                         nat (n_cols * new_width g + (n_cols + 1) * 1)]"
    and cell: "\<forall>row col i j. int row < n_rows \<longrightarrow> int col < n_cols \<longrightarrow>
               int (shape ?images ! 0) \<le> int row * n_cols + int col \<longrightarrow>
               in_cell 1 g row col i j \<longrightarrow>
               i < shape grid ! 0 \<and> j < shape grid ! 1
               \<and> at2 grid i j = DEFAULT_BACKGROUND_COLOR"
    and pad: "\<forall>i j. i < shape grid ! 0 \<longrightarrow> j < shape grid ! 1 \<longrightarrow>
               (\<forall>row col. int row < n_rows \<longrightarrow> int col < n_cols \<longrightarrow> \<not> in_cell 1 g row col i j)
               \<longrightarrow> at2 grid i j = DEFAULT_BACKGROUND_COLOR"
    and placed: "\<forall>row col. int row < n_rows \<longrightarrow> int col < n_cols \<longrightarrow>
               int row * n_cols + int col < int (shape ?images ! 0) \<longrightarrow>
               (\<exists>img img'.
                  grid_resize (key_cv 0) False g
                      (image_at ?sq (nat (int row * n_cols + int col))) = Inr img
                  \<and> grid_normalize False img = Inr img'
                  \<and> (shape img' = [nat (new_height g), nat (new_width g)] \<longrightarrow>
                       (\<forall>a b. a < nat (new_height g) \<longrightarrow> b < nat (new_width g) \<longrightarrow>
                          at2 grid (nat (base_of 1 (new_height g) row) + a)
                                   (nat (base_of 1 (new_width g) col) + b)
                            = at2 img' a b)))"
    and seven: "shape ?images ! 0 = 7 \<longrightarrow>
               n_rows = 2 \<and> n_cols = 4
               \<and> cell_at_background grid 1 g (1, 3)
               \<and> ((\<forall>n img img'. n < 7 \<longrightarrow>
                      grid_resize (key_cv 0) False g (image_at ?sq n) = Inr img \<longrightarrow>
                      grid_normalize False img = Inr img' \<longrightarrow>
                      shape img' = [nat (new_height g), nat (new_width g)]
                      \<and> (\<exists>a b. a < nat (new_height g) \<and> b < nat (new_width g)
                                \<and> at2 img' a b \<noteq> DEFAULT_BACKGROUND_COLOR))
                   \<longrightarrow> filter (cell_at_background grid 1 g) (List.product [0..<2] [0..<4])
                         = [(1, 3)])"
    by blast
  from seven s0 have rc: "n_rows = 2" "n_cols = 4" by simp_all
  have geo': "grid_geometry 1 False 2 4 1 1 = Inr g" using geo rc s1 s2 by simp
  note gg = grid_geometry_Inr [OF geo']
  have nh: "new_height g = 1" and nw: "new_width g = 1" using gg(6,7) by simp_all
  have shape: "shape grid = [5, 9]" using s rc nh nw by simp
  have "in_cell 1 g 1 3 3 7" by (simp add: in_cell_def base_of_def nh nw)
  with cell [rule_format, of 1 3 3 7] have c: "at2 grid 3 7 = DEFAULT_BACKGROUND_COLOR"
    using rc s0 by simp
  have "\<not> in_cell 1 g row col 0 0" for row col
    by (simp add: in_cell_def base_of_def nh nw)
  with pad [rule_format, of 0 0] have d: "at2 grid 0 0 = DEFAULT_BACKGROUND_COLOR"
    using shape by simp
  have ia: "image_at ?sq n
              = \<lparr>dtype = Float64, shape = [1, 1], data = [[1, 2, 3, 4, 5, 6, 7] ! n]\<rparr>"
    if "n < 7" for n
  proof -
    from that have "n = 0 \<or> n = 1 \<or> n = 2 \<or> n = 3 \<or> n = 4 \<or> n = 5 \<or> n = 6" by arith
    then show ?thesis by (auto simp: image_at_def Let_def float_image_def)
  qed
  have v: "([1, 2, 3, 4, 5, 6, 7] :: real list) ! n \<noteq> DEFAULT_BACKGROUND_COLOR" if "n < 7" for n
  proof -
    from that have "n = 0 \<or> n = 1 \<or> n = 2 \<or> n = 3 \<or> n = 4 \<or> n = 5 \<or> n = 6" by arith
    then show ?thesis by (auto simp: DEFAULT_BACKGROUND_COLOR_def)
  qed
  have hyp: "\<forall>n img img'. n < 7 \<longrightarrow>
                      grid_resize (key_cv 0) False g (image_at ?sq n) = Inr img \<longrightarrow>
                      grid_normalize False img = Inr img' \<longrightarrow>
                      shape img' = [nat (new_height g), nat (new_width g)]
                      \<and> (\<exists>a b. a < nat (new_height g) \<and> b < nat (new_width g)
                                \<and> at2 img' a b \<noteq> DEFAULT_BACKGROUND_COLOR)"
  proof (intro allI impI)
    fix n img img'
    assume n: "n < (7::nat)"
      and r: "grid_resize (key_cv 0) False g (image_at ?sq n) = Inr img"
      and m: "grid_normalize False img = Inr img'"
    from r m ia [OF n] have i': "img' = \<lparr>dtype = Float64, shape = [1, 1],
                                         data = [[1, 2, 3, 4, 5, 6, 7] ! n]\<rparr>"
      by (simp add: grid_resize_def grid_normalize_def)
    then have "at2 img' 0 0 \<noteq> DEFAULT_BACKGROUND_COLOR" using v [OF n] by (simp add: at2_def)
    then have "\<exists>a b. a < nat (new_height g) \<and> b < nat (new_width g)
                   \<and> at2 img' a b \<noteq> DEFAULT_BACKGROUND_COLOR"
      using nh nw by (intro exI [of _ 0]) simp
    moreover have "shape img' = [nat (new_height g), nat (new_width g)]"
      using i' nh nw by simp
    ultimately show "shape img' = [nat (new_height g), nat (new_width g)]
                      \<and> (\<exists>a b. a < nat (new_height g) \<and> b < nat (new_width g)
                                \<and> at2 img' a b \<noteq> DEFAULT_BACKGROUND_COLOR)"
      by simp
  qed
  with seven s0 have only: "filter (cell_at_background grid 1 g) (List.product [0..<2] [0..<4])
                              = [(1, 3)]"
    by blast
  have val: "at2 grid (nat (base_of 1 1 row)) (nat (base_of 1 1 col))
               = [1, 2, 3, 4, 5, 6, 7] ! (row * 4 + col)"
    if r: "row < 2" "col < 4" "row * 4 + col < 7" for row col
  proof -
    have nn: "nat (int row * n_cols + int col) = row * 4 + col"
      unfolding rc by (simp add: nat_add_distrib nat_mult_distrib)
    have r': "int row < n_rows" "int col < n_cols"
      "int row * n_cols + int col < int (shape ?images ! 0)"
      using r rc s0 by simp_all
    from placed [rule_format, OF r'] obtain img img' where
      rs: "grid_resize (key_cv 0) False g
             (image_at ?sq (nat (int row * n_cols + int col))) = Inr img"
      and m: "grid_normalize False img = Inr img'"
      and ct: "shape img' = [nat (new_height g), nat (new_width g)] \<longrightarrow>
                 (\<forall>a b. a < nat (new_height g) \<longrightarrow> b < nat (new_width g) \<longrightarrow>
                    at2 grid (nat (base_of 1 (new_height g) row) + a)
                             (nat (base_of 1 (new_width g) col) + b)
                      = at2 img' a b)"
      by blast
    note rs = rs [unfolded nn]
    from rs m ia [OF r(3)] have i': "img' = \<lparr>dtype = Float64, shape = [1, 1],
                                         data = [[1, 2, 3, 4, 5, 6, 7] ! (row * 4 + col)]\<rparr>"
      by (simp add: grid_resize_def grid_normalize_def)
    from ct [rule_format, of 0 0] i' nh nw show ?thesis by (simp add: at2_def)
  qed
  from val [of 0 0] have e: "at2 grid 1 1 = 1" by (simp add: base_of_def)
  from val [of 1 2] have f: "at2 grid 3 5 = 7" by (simp add: base_of_def)
  from b geo' shape c d e f only show ?thesis by blast
qed

section \<open>The resize plan\<close>

lemma grid_geometry_defined:
  assumes "n_rows * int H \<noteq> 0"
  shows "\<exists>g. grid_geometry padding resize_to_fit n_rows n_cols H W = Inr g"
  using assms by (simp add: grid_geometry_def Let_def)

lemma setitem2_shape:
  assumes "setitem2 grid slice_h slice_w v = Inr grid'"
  shows "shape grid' = shape grid"
  using assms by (auto simp: setitem2_def Let_def split: option.splits prod.splits)

lemma place_image_shape:
  assumes "place_image cv images padding resize_to_fit normalize' n_cols g grid c = Inr grid'"
  shows "shape grid' = shape grid"
  using assms
  by (auto simp: place_image_def Let_def and_then_Inr_iff dest: setitem2_shape split: if_splits)

lemma for_each_shape:
  assumes "for_each (place_image cv images padding resize_to_fit normalize' n_cols g) cells grid
             = Inr grid'"
  shows "shape grid' = shape grid"
  using assms
proof (induction cells arbitrary: grid)
  case Nil
  then show ?case by simp
next
  case (Cons c cells)
  then obtain mid where
    pl: "place_image cv images padding resize_to_fit normalize' n_cols g grid c = Inr mid"
    and rest: "for_each (place_image cv images padding resize_to_fit normalize' n_cols g)
                 cells mid = Inr grid'"
    by (auto split: sum.splits)
  from Cons.IH [OF rest] place_image_shape [OF pl] show ?case by simp
qed

lemma grid_image_shape:
  assumes b: "build_grid_image cv images padding resize_to_fit normalize' = Inr grid"
  shows "\<exists>n_rows n_cols g.
           best_grid (int (shape images ! 0)) = Inr (n_rows, n_cols)
         \<and> grid_geometry padding resize_to_fit n_rows n_cols (shape images ! 1) (shape images ! 2)
             = Inr g
         \<and> shape grid = [nat (n_rows * new_height g + (n_rows + 1) * padding),
                         nat (n_cols * new_width g + (n_cols + 1) * padding)]"
proof -
  from build_grid_image_Inr [OF b] obtain N H W n_rows n_cols g grid0 where
    sh: "shape images = [N, H, W, 1]"
    and bg: "best_grid (int N) = Inr (n_rows, n_cols)"
    and geo: "grid_geometry padding resize_to_fit n_rows n_cols H W = Inr g"
    and ones: "np_ones_times (n_rows * new_height g + total_row_padding g)
              (n_cols * new_width g + total_col_padding g) DEFAULT_BACKGROUND_COLOR = Inr grid0"
    and fe: "for_each (place_image cv (images\<lparr>shape := [N, H, W]\<rparr>) padding resize_to_fit
                       normalize' n_cols g)
              (List.product [0..<nat n_rows] [0..<nat n_cols]) grid0 = Inr grid"
    by blast
  note gg = grid_geometry_Inr [OF geo]
  have "shape grid0 = [nat (n_rows * new_height g + (n_rows + 1) * padding),
                       nat (n_cols * new_width g + (n_cols + 1) * padding)]"
    using np_ones_times_Inr(3) [OF ones] gg(2,3) by simp
  with for_each_shape [OF fe] bg geo sh show ?thesis
    by (auto simp: numeral_2_eq_2)
qed

lemma py_round_nearest: "\<bar>real_of_int (py_round x) - x\<bar> \<le> 1 / 2"
proof -
  have "real_of_int \<lfloor>x\<rfloor> \<le> x" "x < real_of_int \<lfloor>x\<rfloor> + 1" by linarith+
  then show ?thesis by (auto simp: py_round_def Let_def)
qed

lemma py_round_tie_even:
  assumes "\<bar>real_of_int (py_round x) - x\<bar> = 1 / 2"
  shows "even (py_round x)"
proof -
  have "real_of_int \<lfloor>x\<rfloor> \<le> x" "x < real_of_int \<lfloor>x\<rfloor> + 1" by linarith+
  with assms show ?thesis by (auto simp: py_round_def Let_def split: if_splits)
qed

lemma float64_error: "\<bar>float64 x - x\<bar> \<le> \<bar>x\<bar> / 2 ^ 53"
proof (cases "x = 0")
  case True
  then show ?thesis by (simp add: float64_def)
next
  case False
  define e where "e = \<lfloor>log 2 \<bar>x\<bar>\<rfloor>"
  define u :: real where "u = 2 powi (e - 52)"
  have u0: "0 < u" by (simp add: u_def)
  have fl: "float64 x = real_of_int (py_round (x / u)) * u"
    using False by (simp add: float64_def Let_def e_def u_def)
  have x0: "0 < \<bar>x\<bar>" using False by simp
  have "2 powr real_of_int e \<le> \<bar>x\<bar>"
    using floor_log_eq_powr_iff [of "\<bar>x\<bar>" 2 e] x0 by (simp add: e_def)
  then have lo: "2 powi e \<le> \<bar>x\<bar>"
    using powr_real_of_int' [of 2 e] by simp
  have ue: "u = 2 powi e / 2 ^ 52" by (simp add: u_def power_int_diff)
  have "float64 x - x = (real_of_int (py_round (x / u)) - x / u) * u"
    using u0 by (simp add: fl algebra_simps)
  then have "\<bar>float64 x - x\<bar> = \<bar>real_of_int (py_round (x / u)) - x / u\<bar> * u"
    using u0 by (simp add: abs_mult)
  also have "\<dots> \<le> 1 / 2 * u"
    using py_round_nearest [of "x / u"] u0 by (intro mult_right_mono) simp_all
  also have "\<dots> = 2 powi e / 2 ^ 53" by (simp add: ue)
  also have "\<dots> \<le> \<bar>x\<bar> / 2 ^ 53" using lo by (simp add: divide_right_mono)
  finally show ?thesis .
qed

text \<open>
  C8. For every resize planned by \<open>show_images_grid\<close>:
  \<open>height_scale = (desired_display_height - (rows + 1) * padding) / (rows * source_height)\<close>
  (as a float: the float64 nearest to the quotient, within a relative error of \<open>2^-53\<close>),
  the width scale always equals the height scale, and the cell is
  \<open>round (height_scale * source_height)\<close> by \<open>round (width_scale * source_width)\<close>, where
  the product is a float64 and \<open>round\<close> takes it to the nearest integer, a tie going to
  the even one; each image goes through \<^verbatim>\<open>cv2.resize\<close> with these two scales. With
  \<open>resize_to_fit\<close> disabled the cell has the source's dimensions and an image is placed as
  it is. The grid image has \<open>rows * cell_height + (rows + 1) * padding\<close> rows and
  \<open>cols * cell_width + (cols + 1) * padding\<close> columns.
\<close>

theorem resize_plan:
  "(n_rows * int H \<noteq> 0 \<longrightarrow>
      (\<exists>g. grid_geometry padding resize_to_fit n_rows n_cols H W = Inr g
         \<and> height_scaling g
             = float64 (real_of_int (DESIRED_HEIGHT - (n_rows + 1) * padding)
                        / real_of_int (n_rows * int H))
         \<and> \<bar>height_scaling g
              - real_of_int (DESIRED_HEIGHT - (n_rows + 1) * padding) / real_of_int (n_rows * int H)\<bar>
             \<le> \<bar>real_of_int (DESIRED_HEIGHT - (n_rows + 1) * padding)
                  / real_of_int (n_rows * int H)\<bar> / 2 ^ 53
         \<and> width_scaling g = height_scaling g
         \<and> (resize_to_fit \<longrightarrow>
               new_height g = py_round (float64 (height_scaling g * float64 (real H)))
             \<and> \<bar>real_of_int (new_height g) - float64 (height_scaling g * float64 (real H))\<bar>
                 \<le> 1 / 2
             \<and> (\<bar>real_of_int (new_height g) - float64 (height_scaling g * float64 (real H))\<bar>
                  = 1 / 2 \<longrightarrow> even (new_height g))
             \<and> new_width g = py_round (float64 (width_scaling g * float64 (real W)))
             \<and> \<bar>real_of_int (new_width g) - float64 (width_scaling g * float64 (real W))\<bar>
                 \<le> 1 / 2
             \<and> (\<bar>real_of_int (new_width g) - float64 (width_scaling g * float64 (real W))\<bar>
                  = 1 / 2 \<longrightarrow> even (new_width g))
             \<and> grid_resize cv resize_to_fit g img
                 = resize cv (height_scaling g) (height_scaling g) img)
         \<and> (\<not> resize_to_fit \<longrightarrow>
               new_height g = int H \<and> new_width g = int W
             \<and> grid_resize cv resize_to_fit g img = Inr img)))
   \<and> (build_grid_image cv images padding resize_to_fit normalize' = Inr grid \<longrightarrow>
        (\<exists>rows cols g.
           best_grid (int (shape images ! 0)) = Inr (rows, cols)
         \<and> grid_geometry padding resize_to_fit rows cols (shape images ! 1) (shape images ! 2)
             = Inr g
         \<and> shape grid = [nat (rows * new_height g + (rows + 1) * padding),
                         nat (cols * new_width g + (cols + 1) * padding)]))"
proof (intro conjI impI)
  assume nz: "n_rows * int H \<noteq> 0"
  from grid_geometry_defined [OF nz] obtain g where
    geo: "grid_geometry padding resize_to_fit n_rows n_cols H W = Inr g" by blast
  note gg = grid_geometry_Inr [OF geo]
  let ?q = "real_of_int (DESIRED_HEIGHT - (n_rows + 1) * padding) / real_of_int (n_rows * int H)"
  have err: "\<bar>height_scaling g - ?q\<bar> \<le> \<bar>?q\<bar> / 2 ^ 53"
    unfolding gg(4) by (rule float64_error)
  have on: "resize_to_fit \<longrightarrow>
               new_height g = py_round (float64 (height_scaling g * float64 (real H)))
             \<and> \<bar>real_of_int (new_height g) - float64 (height_scaling g * float64 (real H))\<bar>
                 \<le> 1 / 2
             \<and> (\<bar>real_of_int (new_height g) - float64 (height_scaling g * float64 (real H))\<bar>
                  = 1 / 2 \<longrightarrow> even (new_height g))
             \<and> new_width g = py_round (float64 (width_scaling g * float64 (real W)))
             \<and> \<bar>real_of_int (new_width g) - float64 (width_scaling g * float64 (real W))\<bar>
                 \<le> 1 / 2
             \<and> (\<bar>real_of_int (new_width g) - float64 (width_scaling g * float64 (real W))\<bar>
                  = 1 / 2 \<longrightarrow> even (new_width g))
             \<and> grid_resize cv resize_to_fit g img
                 = resize cv (height_scaling g) (height_scaling g) img"
  proof
    assume r: resize_to_fit
    have h: "new_height g = py_round (float64 (height_scaling g * float64 (real H)))"
      and w: "new_width g = py_round (float64 (width_scaling g * float64 (real W)))"
      using gg(6,7) r by simp_all
    have "grid_resize cv resize_to_fit g img = resize cv (height_scaling g) (height_scaling g) img"
      using r gg(5) by (simp add: grid_resize_def)
    with h w show "new_height g = py_round (float64 (height_scaling g * float64 (real H)))
             \<and> \<bar>real_of_int (new_height g) - float64 (height_scaling g * float64 (real H))\<bar>
                 \<le> 1 / 2
             \<and> (\<bar>real_of_int (new_height g) - float64 (height_scaling g * float64 (real H))\<bar>
                  = 1 / 2 \<longrightarrow> even (new_height g))
             \<and> new_width g = py_round (float64 (width_scaling g * float64 (real W)))
             \<and> \<bar>real_of_int (new_width g) - float64 (width_scaling g * float64 (real W))\<bar>
                 \<le> 1 / 2
             \<and> (\<bar>real_of_int (new_width g) - float64 (width_scaling g * float64 (real W))\<bar>
                  = 1 / 2 \<longrightarrow> even (new_width g))
             \<and> grid_resize cv resize_to_fit g img
                 = resize cv (height_scaling g) (height_scaling g) img"
      using py_round_nearest py_round_tie_even by presburger
  qed
  have off: "\<not> resize_to_fit \<longrightarrow>
               new_height g = int H \<and> new_width g = int W
             \<and> grid_resize cv resize_to_fit g img = Inr img"
    using gg(6,7) by (simp add: grid_resize_def)
  from geo gg(4) err gg(5) on off
  show "\<exists>g. grid_geometry padding resize_to_fit n_rows n_cols H W = Inr g
         \<and> height_scaling g
             = float64 (real_of_int (DESIRED_HEIGHT - (n_rows + 1) * padding)
                        / real_of_int (n_rows * int H))
         \<and> \<bar>height_scaling g
              - real_of_int (DESIRED_HEIGHT - (n_rows + 1) * padding) / real_of_int (n_rows * int H)\<bar>
             \<le> \<bar>real_of_int (DESIRED_HEIGHT - (n_rows + 1) * padding)
                  / real_of_int (n_rows * int H)\<bar> / 2 ^ 53
         \<and> width_scaling g = height_scaling g
         \<and> (resize_to_fit \<longrightarrow>
               new_height g = py_round (float64 (height_scaling g * float64 (real H)))
             \<and> \<bar>real_of_int (new_height g) - float64 (height_scaling g * float64 (real H))\<bar>
                 \<le> 1 / 2
             \<and> (\<bar>real_of_int (new_height g) - float64 (height_scaling g * float64 (real H))\<bar>
                  = 1 / 2 \<longrightarrow> even (new_height g))
             \<and> new_width g = py_round (float64 (width_scaling g * float64 (real W)))
             \<and> \<bar>real_of_int (new_width g) - float64 (width_scaling g * float64 (real W))\<bar>
                 \<le> 1 / 2
             \<and> (\<bar>real_of_int (new_width g) - float64 (width_scaling g * float64 (real W))\<bar>
                  = 1 / 2 \<longrightarrow> even (new_width g))
             \<and> grid_resize cv resize_to_fit g img
                 = resize cv (height_scaling g) (height_scaling g) img)
         \<and> (\<not> resize_to_fit \<longrightarrow>
               new_height g = int H \<and> new_width g = int W
             \<and> grid_resize cv resize_to_fit g img = Inr img)"
    by blast
next
  assume "build_grid_image cv images padding resize_to_fit normalize' = Inr grid"
  from grid_image_shape [OF this]
  show "\<exists>rows cols g.
           best_grid (int (shape images ! 0)) = Inr (rows, cols)
         \<and> grid_geometry padding resize_to_fit rows cols (shape images ! 1) (shape images ! 2)
             = Inr g
         \<and> shape grid = [nat (rows * new_height g + (rows + 1) * padding),
                         nat (cols * new_width g + (cols + 1) * padding)]" .
qed

lemma float64_examples:
  "float64 13 = 13" "float64 16 = 16" "float64 8 = 8"
  "float64 (497 / 26) = 5380502439430617 / 2 ^ 48"
  "float64 (5380502439430617 / 2 ^ 48 * 13) = 8743316464074753 / 2 ^ 45"
  "float64 (5380502439430617 / 2 ^ 48 * 16) = 5380502439430617 / 2 ^ 44"
  "float64 (497 / 32) = 497 / 32" "float64 (497 / 32 * 16) = 497 / 2"
  "float64 (491 / 32) = 491 / 32" "float64 (491 / 32 * 16) = 491 / 2"
  "float64 (491 / 32 * 8) = 491 / 4"
proof -
  show "float64 13 = 13"
    by (subst float64_eval [of 3]) (simp_all add: py_round_def Let_def)
  show "float64 16 = 16"
    by (subst float64_eval [of 4]) (simp_all add: py_round_def Let_def)
  show "float64 8 = 8"
    by (subst float64_eval [of 3]) (simp_all add: py_round_def Let_def)
  show "float64 (497 / 26) = 5380502439430617 / 2 ^ 48"
    by (subst float64_eval [of 4]) (simp_all add: py_round_def Let_def)
  show "float64 (5380502439430617 / 2 ^ 48 * 13) = 8743316464074753 / 2 ^ 45"
    by (subst float64_eval [of 7]) (simp_all add: py_round_def Let_def)
  show "float64 (5380502439430617 / 2 ^ 48 * 16) = 5380502439430617 / 2 ^ 44"
    by (subst float64_eval [of 8]) (simp_all add: py_round_def Let_def)
  show "float64 (497 / 32) = 497 / 32"
    by (subst float64_eval [of 3]) (simp_all add: py_round_def Let_def)
  show "float64 (497 / 32 * 16) = 497 / 2"
    by (subst float64_eval [of 7]) (simp_all add: py_round_def Let_def)
  show "float64 (491 / 32) = 491 / 32"
    by (subst float64_eval [of 3]) (simp_all add: py_round_def Let_def)
  show "float64 (491 / 32 * 16) = 491 / 2"
    by (subst float64_eval [of 7]) (simp_all add: py_round_def Let_def)
  show "float64 (491 / 32 * 8) = 491 / 4"
    by (subst float64_eval [of 6]) (simp_all add: py_round_def Let_def)
qed

lemma py_round_examples:
  "py_round (8743316464074753 / 2 ^ 45) = 249" "py_round (5380502439430617 / 2 ^ 44) = 306"
  "py_round (497 / 2) = 248" "py_round (491 / 2) = 246" "py_round (491 / 4) = 123"
  by (simp_all add: py_round_def Let_def)

lemma cell_size_examples:
  assumes "grid_geometry padding True 2 4 H W = Inr g"
  shows "padding = 1 \<Longrightarrow> H = 13 \<Longrightarrow> W = 16 \<Longrightarrow> new_height g = 249 \<and> new_width g = 306"
    "padding = 1 \<Longrightarrow> H = 16 \<Longrightarrow> W = 16 \<Longrightarrow> new_height g = 248 \<and> new_width g = 248"
    "padding = 3 \<Longrightarrow> H = 16 \<Longrightarrow> W = 8 \<Longrightarrow> new_height g = 246 \<and> new_width g = 123"
proof -
  note gg = grid_geometry_Inr [OF assms]
  {
    assume a: "padding = 1" "H = 13" "W = 16"
    have hs: "height_scaling g = float64 (497 / 26)"
      using gg(4) a by (simp add: DESIRED_HEIGHT_def)
    have "new_height g = py_round (float64 (float64 (497 / 26) * float64 13))"
      "new_width g = py_round (float64 (float64 (497 / 26) * float64 16))"
      using gg(5,6,7) hs a by simp_all
    then show "new_height g = 249 \<and> new_width g = 306"
      by (simp only: float64_examples py_round_examples)
  }
  {
    assume a: "padding = 1" "H = 16" "W = 16"
    have hs: "height_scaling g = float64 (497 / 32)"
      using gg(4) a by (simp add: DESIRED_HEIGHT_def)
    have "new_height g = py_round (float64 (float64 (497 / 32) * float64 16))"
      "new_width g = py_round (float64 (float64 (497 / 32) * float64 16))"
      using gg(5,6,7) hs a by simp_all
    then show "new_height g = 248 \<and> new_width g = 248"
      by (simp only: float64_examples py_round_examples)
  }
  {
    assume a: "padding = 3" "H = 16" "W = 8"
    have hs: "height_scaling g = float64 (491 / 32)"
      using gg(4) a by (simp add: DESIRED_HEIGHT_def)
    have "new_height g = py_round (float64 (float64 (491 / 32) * float64 16))"
      "new_width g = py_round (float64 (float64 (491 / 32) * float64 8))"
      using gg(5,6,7) hs a by simp_all
    then show "new_height g = 246 \<and> new_width g = 123"
      by (simp only: float64_examples py_round_examples)
  }
qed

theorem resize_plan_witness:
  "(\<exists>g. grid_geometry 1 True 2 4 13 16 = Inr g
       \<and> height_scaling g = 5380502439430617 / 2 ^ 48
       \<and> width_scaling g = 5380502439430617 / 2 ^ 48
       \<and> new_height g = 249 \<and> new_width g = 306)
   \<and> (\<exists>g. grid_geometry 1 True 2 4 16 16 = Inr g \<and> new_height g = 248 \<and> new_width g = 248)
   \<and> (\<exists>g. grid_geometry 3 True 2 4 16 8 = Inr g \<and> new_height g = 246 \<and> new_width g = 123)
   \<and> (\<exists>g. grid_geometry 1 False 2 4 10 20 = Inr g \<and> new_height g = 10 \<and> new_width g = 20
         \<and> grid_resize (key_cv 0) False g (float_image [1, 1] [5]) = Inr (float_image [1, 1] [5]))
   \<and> (\<exists>grid. build_grid_image (key_cv 0) (float_image [7, 1, 1, 1] [1, 2, 3, 4, 5, 6, 7]) 1
                 False False = Inr grid
         \<and> shape grid = [5, 9])"
proof -
  have nz13: "(2::int) * int 13 \<noteq> 0" and nz16: "(2::int) * int 16 \<noteq> 0"
    and nz10: "(2::int) * int 10 \<noteq> 0" by simp_all
  from resize_plan [of 2 13 1 True 4 16 "key_cv 0" "float_image [1, 1] [5]"] nz13
  obtain g1 where
    g1: "grid_geometry 1 True 2 4 13 16 = Inr g1"
    and hs1: "height_scaling g1
                = float64 (real_of_int (DESIRED_HEIGHT - (2 + 1) * 1) / real_of_int (2 * int 13))"
    and ws1: "width_scaling g1 = height_scaling g1"
    by blast
  have "height_scaling g1 = 5380502439430617 / 2 ^ 48"
    using hs1 by (simp add: DESIRED_HEIGHT_def float64_examples)
  with g1 ws1 cell_size_examples(1) [OF g1]
  have A: "\<exists>g. grid_geometry 1 True 2 4 13 16 = Inr g
       \<and> height_scaling g = 5380502439430617 / 2 ^ 48
       \<and> width_scaling g = 5380502439430617 / 2 ^ 48
       \<and> new_height g = 249 \<and> new_width g = 306"
    by (intro exI [of _ g1]) simp
  from resize_plan [of 2 16 1 True 4 16 "key_cv 0" "float_image [1, 1] [5]"] nz16
  obtain g2 where g2: "grid_geometry 1 True 2 4 16 16 = Inr g2" by blast
  with cell_size_examples(2) [OF g2]
  have B: "\<exists>g. grid_geometry 1 True 2 4 16 16 = Inr g \<and> new_height g = 248 \<and> new_width g = 248"
    by (intro exI [of _ g2]) simp
  from resize_plan [of 2 16 3 True 4 8 "key_cv 0" "float_image [1, 1] [5]"] nz16
  obtain g3 where g3: "grid_geometry 3 True 2 4 16 8 = Inr g3" by blast
  with cell_size_examples(3) [OF g3]
  have C: "\<exists>g. grid_geometry 3 True 2 4 16 8 = Inr g \<and> new_height g = 246 \<and> new_width g = 123"
    by (intro exI [of _ g3]) simp
  from resize_plan [of 2 10 1 False 4 20 "key_cv 0" "float_image [1, 1] [5]"] nz10
  obtain g' where
    "grid_geometry 1 False 2 4 10 20 = Inr g'"
    "new_height g' = int 10" "new_width g' = int 20"
    "grid_resize (key_cv 0) False g' (float_image [1, 1] [5]) = Inr (float_image [1, 1] [5])"
    by blast
  then have D: "\<exists>g. grid_geometry 1 False 2 4 10 20 = Inr g \<and> new_height g = 10 \<and> new_width g = 20
         \<and> grid_resize (key_cv 0) False g (float_image [1, 1] [5]) = Inr (float_image [1, 1] [5])"
    by (intro exI [of _ g']) simp
  let ?images = "float_image [7, 1, 1, 1] [1, 2, 3, 4, 5, 6, 7]"
  have sh: "shape ?images = [7, 1, 1, 1]" by (simp add: float_image_def)
  from build_grid_image_plain_ok [OF sh, of 1 "key_cv 0"] obtain grid where
    b: "build_grid_image (key_cv 0) ?images 1 False False = Inr grid"
    by auto
  from resize_plan [of 0 0 1 False 0 0 "key_cv 0" ?images ?images False grid] b
  obtain rows cols g where
    bg: "best_grid (int (shape ?images ! 0)) = Inr (rows, cols)"
    and geo: "grid_geometry 1 False rows cols (shape ?images ! 1) (shape ?images ! 2) = Inr g"
    and s: "shape grid = [nat (rows * new_height g + (rows + 1) * 1),
                         nat (cols * new_width g + (cols + 1) * 1)]"
    by blast
  have "rows = 2 \<and> cols = 4" using bg best_grid_7 by (simp add: float_image_def)
  moreover have "new_height g = 1 \<and> new_width g = 1"
    using grid_geometry_Inr(6,7) [OF geo] by (simp add: float_image_def)
  ultimately have "shape grid = [5, 9]" using s by simp
  with b have E: "\<exists>grid. build_grid_image (key_cv 0) ?images 1 False False = Inr grid
         \<and> shape grid = [5, 9]" by blast
  from A B C D E show ?thesis by blast
qed

section \<open>A display height below the padding budget\<close>

lemma resize_error_propagates:
  assumes sh: "shape images = [N, H, W, 1]"
    and bg: "best_grid (int N) = Inr (n_rows, n_cols)"
    and geo: "grid_geometry padding True n_rows n_cols H W = Inr g"
    and canvas: "0 \<le> n_rows * new_height g + (n_rows + 1) * padding"
      "0 \<le> n_cols * new_width g + (n_cols + 1) * padding"
    and rs: "resize cv (width_scaling g) (height_scaling g)
               (image_at (images\<lparr>shape := [N, H, W]\<rparr>) 0) = Inl e"
  shows "build_grid_image cv images padding True normalize' = Inl e"
proof -
  note pos = best_grid_Inr_pos [OF bg]
  note gg = grid_geometry_Inr [OF geo]
  have sq: "squeeze_last images = Inr (images\<lparr>shape := [N, H, W]\<rparr>)"
    using sh by (simp add: squeeze_last_def)
  obtain grid0 where
    ones: "np_ones_times (n_rows * new_height g + total_row_padding g)
              (n_cols * new_width g + total_col_padding g) DEFAULT_BACKGROUND_COLOR = Inr grid0"
    using canvas gg(2,3) by (simp add: np_ones_times_def)
  from product_upt_head [of "nat n_rows" "nat n_cols"] pos obtain rest where
    cells: "List.product [0..<nat n_rows] [0..<nat n_cols] = (0, 0) # rest"
    by auto
  have "place_image cv (images\<lparr>shape := [N, H, W]\<rparr>) padding True normalize' n_cols g grid0 (0, 0)
          = Inl e"
    using pos(1) rs by (simp add: place_image_def Let_def grid_resize_def)
  then have "for_each (place_image cv (images\<lparr>shape := [N, H, W]\<rparr>) padding True normalize'
                         n_cols g)
               (List.product [0..<nat n_rows] [0..<nat n_cols]) grid0 = Inl e"
    by (simp add: cells)
  then show ?thesis
    using sh sq bg geo ones by (simp add: build_grid_image_def ndim_def)
qed

lemma negative_canvas_rejected:
  assumes sh: "shape images = [N, H, W, 1]"
    and bg: "best_grid (int N) = Inr (n_rows, n_cols)"
    and geo: "grid_geometry padding resize_to_fit n_rows n_cols H W = Inr g"
    and canvas: "n_rows * new_height g + (n_rows + 1) * padding < 0
               \<or> n_cols * new_width g + (n_cols + 1) * padding < 0"
  shows "build_grid_image cv images padding resize_to_fit normalize' = Inl ValueError"
proof -
  note gg = grid_geometry_Inr [OF geo]
  have sq: "squeeze_last images = Inr (images\<lparr>shape := [N, H, W]\<rparr>)"
    using sh by (simp add: squeeze_last_def)
  have "np_ones_times (n_rows * new_height g + total_row_padding g)
              (n_cols * new_width g + total_col_padding g) DEFAULT_BACKGROUND_COLOR
          = Inl ValueError"
    using canvas gg(2,3) by (simp add: np_ones_times_def)
  then show ?thesis
    using sh sq bg geo by (simp add: build_grid_image_def ndim_def)
qed

lemma geometry_250: 
  "grid_geometry 250 True 1 1 1 1
     = Inr \<lparr>total_row_padding = 500, total_col_padding = 500, height_scaling = 0,
            width_scaling = 0, new_height = 0, new_width = 0\<rparr>"
  by (simp add: grid_geometry_def Let_def DESIRED_HEIGHT_def float64_0 py_round_def)

lemma geometry_300:
  "grid_geometry 300 True 1 1 1 1
     = Inr \<lparr>total_row_padding = 600, total_col_padding = 600, height_scaling = - 100,
            width_scaling = - 100, new_height = - 100, new_width = - 100\<rparr>"
  by (simp add: grid_geometry_def Let_def DESIRED_HEIGHT_def float64_1 float64_neg_100
      py_round_def)

text \<open>
  C3, as claimed: whenever \<open>height_scale\<close> is not positive, \<open>show_images_grid\<close> with
  \<open>resize_to_fit\<close> rejects the configuration before any resize is attempted. The code
  has no such check. With one 1 by 1 image and a padding of 300 the scale is \<open>-100\<close>, the
  grid image is allocated (500 by 500), and the image is handed to \<^verbatim>\<open>cv2.resize\<close>: with an
  OpenCV whose \<^verbatim>\<open>resize\<close> raises, the call ends in that error, which nothing but
  \<^verbatim>\<open>cv2.resize\<close> produces.
\<close>

theorem nonpositive_scale_reaches_resize:
  "grid_geometry 300 True 1 1 1 1
     = Inr \<lparr>total_row_padding = 600, total_col_padding = 600, height_scaling = - 100,
            width_scaling = - 100, new_height = - 100, new_width = - 100\<rparr>
   \<and> show_images_grid (key_cv 0) (float_image [1, 1, 1, 1] [5]) (WaitBool True) 300 True False
       True = Inl CvError"
proof -
  have sh: "shape (float_image [1, 1, 1, 1] [5]) = [1, 1, 1, 1]" by (simp add: float_image_def)
  have bg: "best_grid (int 1) = Inr (1, 1)" using best_grid_1 by simp
  have "build_grid_image (key_cv 0) (float_image [1, 1, 1, 1] [5]) 300 True False = Inl CvError"
    by (rule resize_error_propagates [OF sh bg geometry_300]) (simp_all add: key_cv_def)
  then have "show_images_grid (key_cv 0) (float_image [1, 1, 1, 1] [5]) (WaitBool True) 300 True
               False True = Inl CvError"
    by (simp add: show_images_grid_def)
  with geometry_300 show ?thesis by (rule conjI)
qed

text \<open>
  C3, amended. \<open>show_images_grid\<close> never inspects the sign of \<open>height_scale\<close>. With
  \<open>resize_to_fit\<close> enabled and a batch of shape \<open>[N, H, W, 1]\<close>, once the layout and the
  geometry are computed: if a dimension of the grid image comes out negative the call
  fails with the \<^verbatim>\<open>ValueError\<close> of \<^verbatim>\<open>np.ones\<close>; otherwise the first image is handed to
  \<^verbatim>\<open>cv2.resize\<close> with \<open>fx = fy = height_scale\<close>, whatever the sign of the scale, and an
  error raised there is the error of the call.
\<close>

theorem scale_sign_unchecked:
  assumes sh: "shape images = [N, H, W, 1]"
    and bg: "best_grid (int N) = Inr (n_rows, n_cols)"
    and geo: "grid_geometry padding True n_rows n_cols H W = Inr g"
  shows "(n_rows * new_height g + (n_rows + 1) * padding < 0
            \<or> n_cols * new_width g + (n_cols + 1) * padding < 0 \<longrightarrow>
          show_images_grid cv images wait padding True normalize' visualize_negative
            = Inl ValueError)
       \<and> (0 \<le> n_rows * new_height g + (n_rows + 1) * padding
            \<and> 0 \<le> n_cols * new_width g + (n_cols + 1) * padding
            \<and> resize cv (height_scaling g) (height_scaling g)
                 (image_at (images\<lparr>shape := [N, H, W]\<rparr>) 0) = Inl e \<longrightarrow>
          show_images_grid cv images wait padding True normalize' visualize_negative = Inl e)"
proof (intro conjI impI)
  assume "n_rows * new_height g + (n_rows + 1) * padding < 0
            \<or> n_cols * new_width g + (n_cols + 1) * padding < 0"
  from negative_canvas_rejected [OF sh bg geo this]
  show "show_images_grid cv images wait padding True normalize' visualize_negative
            = Inl ValueError"
    by (simp add: show_images_grid_def)
next
  assume a: "0 \<le> n_rows * new_height g + (n_rows + 1) * padding
            \<and> 0 \<le> n_cols * new_width g + (n_cols + 1) * padding
            \<and> resize cv (height_scaling g) (height_scaling g)
                 (image_at (images\<lparr>shape := [N, H, W]\<rparr>) 0) = Inl e"
  have ws: "width_scaling g = height_scaling g" by (rule grid_geometry_Inr(5) [OF geo])
  have "build_grid_image cv images padding True normalize' = Inl e"
    by (rule resize_error_propagates [OF sh bg geo]) (use a ws in simp_all)
  then show "show_images_grid cv images wait padding True normalize' visualize_negative = Inl e"
    by (simp add: show_images_grid_def)
qed

theorem scale_sign_unchecked_witness:
  "show_images_grid (key_cv 0) (float_image [1, 1, 1, 1] [5]) (WaitBool True) 250 True False True
     = Inl CvError
   \<and> show_images_grid (key_cv 0) (float_image [1, 1, 7, 1] [1, 2, 3, 4, 5, 6, 7]) (WaitBool True) 300
       True False True = Inl ValueError"
proof -
  have sh: "shape (float_image [1, 1, 1, 1] [5]) = [1, 1, 1, 1]" by (simp add: float_image_def)
  have bg: "best_grid (int 1) = Inr (1, 1)" using best_grid_1 by simp
  from scale_sign_unchecked [OF sh bg geometry_250, where cv = "key_cv 0" and e = CvError
      and wait = "WaitBool True" and normalize' = False and visualize_negative = True]
  have A: "show_images_grid (key_cv 0) (float_image [1, 1, 1, 1] [5]) (WaitBool True) 250 True
             False True = Inl CvError"
    by (simp add: key_cv_def)
  have sh5: "shape (float_image [1, 1, 7, 1] [1, 2, 3, 4, 5, 6, 7]) = [1, 1, 7, 1]"
    by (simp add: float_image_def)
  have g5: "grid_geometry 300 True 1 1 1 7
     = Inr \<lparr>total_row_padding = 600, total_col_padding = 600, height_scaling = - 100,
            width_scaling = - 100, new_height = - 100, new_width = - 700\<rparr>"
    by (simp add: grid_geometry_def Let_def DESIRED_HEIGHT_def float64_1 float64_7
        float64_neg_100 float64_neg_700 py_round_def)
  from scale_sign_unchecked [OF sh5 bg g5, where cv = "key_cv 0" and wait = "WaitBool True"
      and normalize' = False and visualize_negative = True]
  have B: "show_images_grid (key_cv 0) (float_image [1, 1, 7, 1] [1, 2, 3, 4, 5, 6, 7]) (WaitBool True)
             300 True False True = Inl ValueError"
    by simp
  from A B show ?thesis by simp
qed

end
